theory Spec2Isabelle
  imports Main "HOL-Library.AList" "HOL-Library.List_Lexorder" "HOL-Library.Char_ord"
begin

section \<open>Errors, dates and the data model\<close>

text \<open>
  Every exception that the modelled code can raise is a value of \<open>error\<close>; a function
  that may raise returns \<open>error + 'a\<close> with \<open>Inl\<close> for the exception.
  \<open>ExternalError\<close> stands for any exception raised by an external collaborator
  (feed fetcher, text-generation service, mail transport).
\<close>

datatype error =
    OverflowError
  | ValueError
  | JSONDecodeError
  | KeyError
  | TypeError
  | AttributeError
  | FileNotFoundError
  | ExternalError

text \<open>
  A \<open>datetime.date\<close> is represented by its proleptic Gregorian ordinal
  (\<open>date.toordinal()\<close>): day 1 is 0001-01-01 and \<open>date.max\<close> is day 3652059.
  Comparison of dates is comparison of ordinals, and subtracting a \<open>timedelta\<close>
  subtracts days. Both \<open>timedelta(days=n)\<close> and the subtraction raise
  \<open>OverflowError\<close> outside their ranges.
\<close>

type_synonym date = int

definition MINORDINAL :: int where
  "MINORDINAL = 1"

definition MAXORDINAL :: int where
  "MAXORDINAL = 3652059"

definition date_minus_days :: "date \<Rightarrow> int \<Rightarrow> error + date" where
  "date_minus_days d n =
     (if n < - 999999999 \<or> 999999999 < n then Inl OverflowError
      else if d - n < MINORDINAL \<or> MAXORDINAL < d - n then Inl OverflowError
      else Inr (d - n))"

text \<open>The calendar arithmetic of \<open>datetime\<close>, needed for \<open>isoformat\<close>,
  \<open>strftime("%Y-%m-%d")\<close> and \<open>fromisoformat\<close>.\<close>

definition is_leap :: "int \<Rightarrow> bool" where
  "is_leap y = (y mod 4 = 0 \<and> (y mod 100 \<noteq> 0 \<or> y mod 400 = 0))"

definition days_before_year :: "int \<Rightarrow> int" where
  "days_before_year year = (let y = year - 1 in y * 365 + y div 4 - y div 100 + y div 400)"

definition days_in_month :: "int \<Rightarrow> int \<Rightarrow> int" where
  "days_in_month y m =
     (if m = 2 then (if is_leap y then 29 else 28)
      else if m = 4 \<or> m = 6 \<or> m = 9 \<or> m = 11 then 30 else 31)"

fun days_before_month_upto :: "int \<Rightarrow> nat \<Rightarrow> int" where
  "days_before_month_upto y 0 = 0"
| "days_before_month_upto y (Suc k) =
     (if k = 0 then 0 else days_before_month_upto y k + days_in_month y (int k))"

definition days_before_month :: "int \<Rightarrow> int \<Rightarrow> int" where
  "days_before_month y m = days_before_month_upto y (nat m)"

definition ymd2ord :: "int \<Rightarrow> int \<Rightarrow> int \<Rightarrow> int" where
  "ymd2ord y m d = days_before_year y + days_before_month y m + d"

fun find_month :: "int \<Rightarrow> int \<Rightarrow> nat \<Rightarrow> int \<times> int" where
  "find_month y n 0 = (12, n)"
| "find_month y n (Suc k) =
     (let m = 12 - int k
      in if n < days_in_month y m \<or> k = 0 then (m, n)
         else find_month y (n - days_in_month y m) k)"

definition ord2ymd :: "int \<Rightarrow> int \<times> int \<times> int" where
  "ord2ymd ordinal =
     (let n0 = ordinal - 1;
          n400 = n0 div 146097; n1 = n0 mod 146097;
          n100 = n1 div 36524; n2 = n1 mod 36524;
          n4 = n2 div 1461; n3 = n2 mod 1461;
          n1y = n3 div 365; n = n3 mod 365;
          year = n400 * 400 + 1 + n100 * 100 + n4 * 4 + n1y
      in if n1y = 4 \<or> n100 = 4 then (year - 1, 12, 31)
         else (let (m, r) = find_month year n 12 in (year, m, r + 1)))"

fun digit_char :: "nat \<Rightarrow> char" where
  "digit_char n = char_of (48 + n mod 10)"

fun digits_of :: "nat \<Rightarrow> nat \<Rightarrow> string" where
  "digits_of 0 n = []"
| "digits_of (Suc w) n = digits_of w (n div 10) @ [digit_char n]"

fun num_width :: "nat \<Rightarrow> nat \<Rightarrow> nat" where
  "num_width 0 n = 1"
| "num_width (Suc f) n = (if n < 10 then 1 else Suc (num_width f (n div 10)))"

definition format_d :: "nat \<Rightarrow> nat \<Rightarrow> string" where
  \<comment> \<open>\<open>f"{n:0{w}d}"\<close> for a non-negative \<open>n\<close>: decimal, zero-padded to at least \<open>w\<close> digits\<close>
  "format_d w n = digits_of (max w (num_width n n)) n"

definition isoformat :: "date \<Rightarrow> string" where
  \<comment> \<open>\<open>date.isoformat()\<close> and \<open>date.strftime("%Y-%m-%d")\<close>\<close>
  "isoformat d =
     (let (y, m, dd) = ord2ymd d
      in format_d 4 (nat y) @ ''-'' @ format_d 2 (nat m) @ ''-'' @ format_d 2 (nat dd))"

definition is_digit :: "char \<Rightarrow> bool" where
  "is_digit c = ((48::nat) \<le> of_char c \<and> of_char c \<le> (57::nat))"

fun nat_of_digits :: "nat \<Rightarrow> string \<Rightarrow> nat" where
  "nat_of_digits acc [] = acc"
| "nat_of_digits acc (c # cs) = nat_of_digits (acc * 10 + (of_char c - (48::nat))) cs"

definition date_token_shape :: "string \<Rightarrow> bool" where
  \<comment> \<open>the shape \<open>\d{4}-\d{2}-\d{2}\<close>\<close>
  "date_token_shape s =
     (length s = 10 \<and> list_all is_digit (take 4 s) \<and> s ! 4 = CHR ''-''
      \<and> list_all is_digit (take 2 (drop 5 s)) \<and> s ! 7 = CHR ''-''
      \<and> list_all is_digit (drop 8 s))"

definition fromisoformat :: "string \<Rightarrow> error + date" where
  \<comment> \<open>\<open>date.fromisoformat\<close> on a \<open>YYYY-MM-DD\<close> string; \<open>ValueError\<close> for anything
      that is not a calendar date\<close>
  "fromisoformat s =
     (if \<not> date_token_shape s then Inl ValueError
      else let y = int (nat_of_digits 0 (take 4 s));
               m = int (nat_of_digits 0 (take 2 (drop 5 s)));
               d = int (nat_of_digits 0 (drop 8 s))
           in if y < 1 \<or> m < 1 \<or> 12 < m \<or> d < 1 \<or> days_in_month y m < d
              then Inl ValueError
              else Inr (ymd2ord y m d))"

text \<open>
  \<open>Paper\<close> (models.py). The two \<open>datetime\<close> fields are kept as their ISO texts, the
  form in which they are stored; nothing in the pipeline computes with them.
\<close>

record paper =
  paper_id :: string
  title :: string
  summary :: string
  authors :: "string list"
  link :: string
  category :: string
  published :: string
  updated :: string

text \<open>
  The run state (\<open>state.json\<close>): \<open>seen_by_date\<close> is a dict from day to the list of
  paper ids recorded under that day. A Python dict is an association list in
  insertion order; \<open>map_of\<close> is lookup and \<open>AList.update\<close> is item assignment
  (in place for an existing key, appended for a new one). The keys are the days
  themselves: the program writes them with \<open>isoformat\<close> and reads them back with
  \<open>fromisoformat\<close>.
\<close>

record run_state =
  seen_by_date :: "(date \<times> string list) list"
  last_run_date :: "string option"

section \<open>Dedup state tracker (storage.py)\<close>

definition recorded :: "run_state \<Rightarrow> date \<Rightarrow> string list" where
  \<comment> \<open>\<open>seen_by_date.get(day, [])\<close>\<close>
  "recorded st day = (case map_of (seen_by_date st) day of None \<Rightarrow> [] | Some ids \<Rightarrow> ids)"

definition build_seen_set :: "date \<Rightarrow> run_state \<Rightarrow> int \<Rightarrow> error + string set" where
  "build_seen_set today st retention_days =
     (case date_minus_days today retention_days of
        Inl e \<Rightarrow> Inl e
      | Inr cutoff \<Rightarrow>
          (let valid_dates = set (filter (\<lambda>day. cutoff \<le> day) (map fst (seen_by_date st)))
           in Inr (\<Union>day \<in> valid_dates. set (recorded st day))))"

fun append_ids ::
  "(date \<times> string list) list \<Rightarrow> date \<Rightarrow> paper list \<Rightarrow> error + (date \<times> string list) list"
where
  "append_ids sbd day_key [] = Inr sbd"
| "append_ids sbd day_key (p # ps) =
     (case map_of sbd day_key of
        None \<Rightarrow> Inl KeyError
      | Some ids \<Rightarrow> append_ids (AList.update day_key (ids @ [paper_id p]) sbd) day_key ps)"

definition setdefault :: "'k \<Rightarrow> 'v \<Rightarrow> ('k \<times> 'v) list \<Rightarrow> ('k \<times> 'v) list" where
  "setdefault k v d = (case map_of d k of None \<Rightarrow> AList.update k v d | Some _ \<Rightarrow> d)"

definition update_state_with_papers ::
  "string \<Rightarrow> run_state \<Rightarrow> date \<Rightarrow> paper list \<Rightarrow> error + run_state"
where
  \<comment> \<open>the first argument is \<open>datetime.utcnow().isoformat()\<close> at the time of the call\<close>
  "update_state_with_papers now st target_date papers =
     (let day_key = target_date;
          sbd = setdefault day_key [] (seen_by_date st)
      in case append_ids sbd day_key papers of
           Inl e \<Rightarrow> Inl e
         | Inr sbd' \<Rightarrow> Inr \<lparr>seen_by_date = sbd', last_run_date = Some now\<rparr>)"


section \<open>JSON values and the library functions taken as parameters\<close>

text \<open>
  A parsed JSON document. A JSON object is a Python dict: an association list in
  insertion order, looked up with \<open>map_of\<close>. Floating-point numbers are left out:
  the pipeline never computes with one.
\<close>

datatype json =
    JNull
  | JBool bool
  | JInt int
  | JStr string
  | JArr "json list"
  | JObj "(string \<times> json) list"

text \<open>
  The \<open>json\<close> module is not part of the repository; its three entry points used by
  the code are parameters of the model. \<open>json_loads\<close> returns \<open>None\<close> where
  \<open>json.loads\<close> raises \<open>JSONDecodeError\<close>.
\<close>

record pylib =
  json_loads :: "string \<Rightarrow> json option"
  json_dumps_indent :: "json \<Rightarrow> string"  \<comment> \<open>\<open>json.dumps(x, ensure_ascii=False, indent=2)\<close>\<close>
  json_dumps :: "json \<Rightarrow> string"  \<comment> \<open>\<open>json.dumps(x, ensure_ascii=False)\<close>\<close>

definition loads :: "pylib \<Rightarrow> string \<Rightarrow> error + json" where
  "loads L text = (case json_loads L text of None \<Rightarrow> Inl JSONDecodeError | Some j \<Rightarrow> Inr j)"

definition dict_get :: "json \<Rightarrow> string \<Rightarrow> json \<Rightarrow> error + json" where
  \<comment> \<open>\<open>payload.get(key, default)\<close>\<close>
  "dict_get payload key dflt =
     (case payload of
        JObj kvs \<Rightarrow> Inr (case map_of kvs key of None \<Rightarrow> dflt | Some v \<Rightarrow> v)
      | _ \<Rightarrow> Inl AttributeError)"

definition dict_item :: "json \<Rightarrow> string \<Rightarrow> error + json" where
  \<comment> \<open>\<open>item[key]\<close>\<close>
  "dict_item item key =
     (case item of
        JObj kvs \<Rightarrow> (case map_of kvs key of None \<Rightarrow> Inl KeyError | Some v \<Rightarrow> Inr v)
      | _ \<Rightarrow> Inl TypeError)"

definition truthy :: "json \<Rightarrow> bool" where
  \<comment> \<open>Python truth value of a parsed document\<close>
  "truthy j =
     (case j of
        JNull \<Rightarrow> False
      | JBool b \<Rightarrow> b
      | JInt n \<Rightarrow> n \<noteq> 0
      | JStr s \<Rightarrow> s \<noteq> []
      | JArr xs \<Rightarrow> xs \<noteq> []
      | JObj kvs \<Rightarrow> kvs \<noteq> [])"

definition is_space :: "char \<Rightarrow> bool" where
  "is_space c = ((of_char c :: nat) \<in> {9, 10, 11, 12, 13, 28, 29, 30, 31, 32})"

definition strip :: "string \<Rightarrow> string" where
  "strip s = rev (dropWhile is_space (rev (dropWhile is_space s)))"

fun digits_with_underscores :: "string \<Rightarrow> bool" where
  "digits_with_underscores [] = False"
| "digits_with_underscores [c] = is_digit c"
| "digits_with_underscores (c # d # cs) =
     (is_digit c \<and>
      (if d = CHR ''_'' then cs \<noteq> [] \<and> digits_with_underscores cs
       else digits_with_underscores (d # cs)))"

definition int_of_str :: "string \<Rightarrow> int option" where
  \<comment> \<open>\<open>int(s)\<close> for a string: optional sign, decimal digits, single underscores\<close>
  "int_of_str s =
     (let t = strip s;
          (sign, body) =
            (case t of
               [] \<Rightarrow> (1::int, t)
             | c # r \<Rightarrow> if c = CHR ''-'' then (- 1, r) else if c = CHR ''+'' then (1, r) else (1, t))
      in if digits_with_underscores body
         then Some (sign * int (nat_of_digits 0 (filter (\<lambda>c. c \<noteq> CHR ''_'') body)))
         else None)"

definition py_int :: "json \<Rightarrow> error + int" where
  \<comment> \<open>the builtin \<open>int(x)\<close> on a parsed value\<close>
  "py_int j =
     (case j of
        JInt n \<Rightarrow> Inr n
      | JBool b \<Rightarrow> Inr (if b then 1 else 0)
      | JStr s \<Rightarrow> (case int_of_str s of None \<Rightarrow> Inl ValueError | Some n \<Rightarrow> Inr n)
      | _ \<Rightarrow> Inl TypeError)"

definition format_02d :: "int \<Rightarrow> string" where
  \<comment> \<open>\<open>f"{n:02d}"\<close>\<close>
  "format_02d n = (if n < 0 then ''-'' @ format_d 1 (nat (- n)) else format_d 2 (nat n))"

definition startswith :: "string \<Rightarrow> string \<Rightarrow> bool" where
  \<comment> \<open>\<open>s.startswith(p)\<close>\<close>
  "startswith s p = (take (length p) s = p)"

section \<open>The file system below \<open>data_dir\<close>\<close>

text \<open>
  A file is addressed by the directories below \<open>data_dir\<close> and its name; the file
  system is the association list of the files with their texts, in the order in which
  a directory listing yields them. Directories are implicit: every writer calls
  \<open>_ensure_dir\<close> first, and the code observes a directory only by listing its files,
  so a missing directory and an empty one behave alike.
\<close>

type_synonym path = "string list \<times> string"

type_synonym fs = "(path \<times> string) list"

definition path_exists :: "fs \<Rightarrow> path \<Rightarrow> bool" where
  "path_exists fs p = (map_of fs p \<noteq> None)"

definition read_text :: "fs \<Rightarrow> path \<Rightarrow> error + string" where
  "read_text fs p = (case map_of fs p of None \<Rightarrow> Inl FileNotFoundError | Some t \<Rightarrow> Inr t)"

definition write_text :: "path \<Rightarrow> string \<Rightarrow> fs \<Rightarrow> fs" where
  "write_text p data fs = AList.update p data fs"

definition replace_path :: "path \<Rightarrow> path \<Rightarrow> fs \<Rightarrow> error + fs" where
  \<comment> \<open>\<open>src.replace(dst)\<close>: one rename, overwriting the destination\<close>
  "replace_path src dst fs =
     (case map_of fs src of
        None \<Rightarrow> Inl FileNotFoundError
      | Some data \<Rightarrow> Inr (AList.update dst data (AList.delete src fs)))"

definition iterdir :: "fs \<Rightarrow> string list \<Rightarrow> path list" where
  "iterdir fs dir = filter (\<lambda>p. fst p = dir) (map fst fs)"

definition with_tmp_suffix :: "path \<Rightarrow> path" where
  \<comment> \<open>\<open>path.with_suffix(path.suffix + ".tmp")\<close>: the same directory, \<open>.tmp\<close> appended to
      the name\<close>
  "with_tmp_suffix p = (fst p, snd p @ ''.tmp'')"

definition atomic_write :: "path \<Rightarrow> string \<Rightarrow> fs \<Rightarrow> error + fs" where
  "atomic_write p data fs =
     (let temp_path = with_tmp_suffix p;
          fs1 = write_text temp_path data fs
      in replace_path temp_path p fs1)"

text \<open>
  The file-system states that an interruption of \<open>_atomic_write\<close> can leave behind:
  the state before the call, the states in which \<open>write_text\<close> has created the
  temporary file and written a prefix of the data to it, and the state after the rename.
\<close>

definition atomic_write_states :: "path \<Rightarrow> string \<Rightarrow> fs \<Rightarrow> fs list" where
  "atomic_write_states p data fs =
     fs # map (\<lambda>k. write_text (with_tmp_suffix p) (take k data) fs) [0 ..< Suc (length data)]
     @ (case atomic_write p data fs of Inl e \<Rightarrow> [] | Inr fs' \<Rightarrow> [fs'])"

section \<open>Persistence layer (storage.py)\<close>

definition date_dir :: "date \<Rightarrow> string list" where
  "date_dir target_date = [isoformat target_date]"

definition state_path :: path where
  "state_path = ([''state''], ''state.json'')"

definition state_to_json :: "run_state \<Rightarrow> json" where
  "state_to_json st =
     JObj [(''seen_by_date'',
            JObj (map (\<lambda>(d, ids). (isoformat d, JArr (map JStr ids))) (seen_by_date st))),
           (''last_run_date'', (case last_run_date st of None \<Rightarrow> JNull | Some s \<Rightarrow> JStr s))]"

fun decode_ids :: "json list \<Rightarrow> error + string list" where
  "decode_ids [] = Inr []"
| "decode_ids (j # js) =
     (case j of
        JStr s \<Rightarrow> (case decode_ids js of Inl e \<Rightarrow> Inl e | Inr ss \<Rightarrow> Inr (s # ss))
      | _ \<Rightarrow> Inl TypeError)"

fun decode_days :: "(string \<times> json) list \<Rightarrow> error + (date \<times> string list) list" where
  "decode_days [] = Inr []"
| "decode_days ((k, v) # kvs) =
     (case fromisoformat k of
        Inl e \<Rightarrow> Inl e
      | Inr d \<Rightarrow>
          (case v of
             JArr js \<Rightarrow>
               (case decode_ids js of
                  Inl e \<Rightarrow> Inl e
                | Inr ids \<Rightarrow>
                    (case decode_days kvs of Inl e \<Rightarrow> Inl e | Inr rest \<Rightarrow> Inr ((d, ids) # rest)))
           | _ \<Rightarrow> Inl TypeError))"

definition state_of_json :: "json \<Rightarrow> error + run_state" where
  \<comment> \<open>the typed reading of the loaded state document: what \<open>build_seen_set\<close> and
      \<open>update_state_with_papers\<close> take from it with \<open>state.get("seen_by_date", {})\<close>\<close>
  "state_of_json j =
     (case dict_get j ''seen_by_date'' (JObj []) of
        Inl e \<Rightarrow> Inl e
      | Inr (JObj kvs) \<Rightarrow>
          (case decode_days kvs of
             Inl e \<Rightarrow> Inl e
           | Inr sbd \<Rightarrow>
               Inr \<lparr>seen_by_date = sbd,
                    last_run_date =
                      (case dict_get j ''last_run_date'' JNull of Inr (JStr s) \<Rightarrow> Some s | _ \<Rightarrow> None)\<rparr>)
      | Inr _ \<Rightarrow> Inl AttributeError)"

definition load_state :: "pylib \<Rightarrow> fs \<Rightarrow> error + run_state" where
  "load_state L fs =
     (if \<not> path_exists fs state_path then Inr \<lparr>seen_by_date = [], last_run_date = None\<rparr>
      else case read_text fs state_path of
             Inl e \<Rightarrow> Inl e
           | Inr text \<Rightarrow> (case loads L text of Inl e \<Rightarrow> Inl e | Inr j \<Rightarrow> state_of_json j))"

definition save_state :: "pylib \<Rightarrow> run_state \<Rightarrow> fs \<Rightarrow> error + fs" where
  "save_state L st fs = atomic_write state_path (json_dumps_indent L (state_to_json st)) fs"

definition to_dict :: "paper \<Rightarrow> json" where
  "to_dict p =
     JObj [(''paper_id'', JStr (paper_id p)), (''title'', JStr (title p)),
           (''summary'', JStr (summary p)), (''authors'', JArr (map JStr (authors p))),
           (''link'', JStr (link p)), (''category'', JStr (category p)),
           (''published'', JStr (published p)), (''updated'', JStr (updated p))]"

definition raw_papers_path :: "date \<Rightarrow> path" where
  "raw_papers_path target_date = (date_dir target_date @ [''raw''], ''papers.jsonl'')"

fun join_lines :: "string list \<Rightarrow> string" where
  \<comment> \<open>\<open>"\n".join(lines)\<close>\<close>
  "join_lines [] = []"
| "join_lines [l] = l"
| "join_lines (l # ls) = l @ [CHR 0x0A] @ join_lines ls"

definition save_raw_papers :: "pylib \<Rightarrow> date \<Rightarrow> paper list \<Rightarrow> fs \<Rightarrow> error + fs" where
  "save_raw_papers L target_date papers fs =
     (let lines = map (\<lambda>p. json_dumps L (to_dict p)) papers
      in atomic_write (raw_papers_path target_date)
           (join_lines lines @ (if lines \<noteq> [] then [CHR 0x0A] else [])) fs)"

definition is_linebreak :: "char \<Rightarrow> bool" where
  "is_linebreak c = ((of_char c :: nat) \<in> {10, 11, 12, 13, 28, 29, 30})"

fun splitlines_from :: "string \<Rightarrow> string \<Rightarrow> string list" where
  \<comment> \<open>\<open>str.splitlines()\<close>; the first argument is the line read so far\<close>
  "splitlines_from cur [] = (if cur = [] then [] else [cur])"
| "splitlines_from cur [c] = (if is_linebreak c then [cur] else [cur @ [c]])"
| "splitlines_from cur (c # d # cs) =
     (if c = CHR 0x0D \<and> d = CHR 0x0A then cur # splitlines_from [] cs
      else if is_linebreak c then cur # splitlines_from [] (d # cs)
      else splitlines_from (cur @ [c]) (d # cs))"

fun load_lines :: "pylib \<Rightarrow> string list \<Rightarrow> error + json list" where
  "load_lines L [] = Inr []"
| "load_lines L (line # rest) =
     (if strip line \<noteq> []
      then (case loads L line of
              Inl e \<Rightarrow> Inl e
            | Inr item \<Rightarrow> (case load_lines L rest of Inl e \<Rightarrow> Inl e | Inr items \<Rightarrow> Inr (item # items)))
      else load_lines L rest)"

definition read_raw_papers :: "pylib \<Rightarrow> fs \<Rightarrow> date \<Rightarrow> error + json list" where
  "read_raw_papers L fs target_date =
     (let p = raw_papers_path target_date
      in if \<not> path_exists fs p then Inr []
         else case read_text fs p of
                Inl e \<Rightarrow> Inl e
              | Inr text \<Rightarrow> load_lines L (splitlines_from [] text))"

record summary_chunk =
  chunk_date :: date  \<comment> \<open>held as its ISO text; \<open>date.fromisoformat(chunk.date)\<close> is this day\<close>
  chunk_index :: int
  content :: json

definition summaries_dir :: "date \<Rightarrow> string list" where
  "summaries_dir target_date = date_dir target_date @ [''summaries'']"

definition responses_dir :: "date \<Rightarrow> string list" where
  "responses_dir target_date = date_dir target_date @ [''responses'']"

definition summary_chunk_path :: "date \<Rightarrow> int \<Rightarrow> path" where
  "summary_chunk_path d idx = (summaries_dir d, ''summary_part'' @ format_02d idx @ ''.json'')"

definition chunk_payload :: "summary_chunk \<Rightarrow> json" where
  "chunk_payload chunk =
     JObj [(''date'', JStr (isoformat (chunk_date chunk))),
           (''chunk_index'', JInt (chunk_index chunk)),
           (''content'', content chunk)]"

definition save_summary_chunk :: "pylib \<Rightarrow> summary_chunk \<Rightarrow> fs \<Rightarrow> error + fs" where
  "save_summary_chunk L chunk fs =
     atomic_write (summary_chunk_path (chunk_date chunk) (chunk_index chunk))
       (json_dumps_indent L (chunk_payload chunk)) fs"

definition has_summary_for_date :: "fs \<Rightarrow> date \<Rightarrow> bool" where
  "has_summary_for_date fs target_date =
     list_ex (\<lambda>p. startswith (snd p) ''summary_part'') (iterdir fs (summaries_dir target_date))"

definition load_chunk_file ::
  "pylib \<Rightarrow> fs \<Rightarrow> path \<Rightarrow> (int \<times> json) list \<Rightarrow> error + (int \<times> json) list"
where
  \<comment> \<open>the body of the loop of \<open>load_summary_chunks\<close>, for one directory entry\<close>
  "load_chunk_file L fs p chunks =
     (if \<not> startswith (snd p) ''summary_part'' then Inr chunks
      else case read_text fs p of
        Inl e \<Rightarrow> Inl e
      | Inr text \<Rightarrow>
      (case loads L text of
        Inl e \<Rightarrow> Inl e
      | Inr payload \<Rightarrow>
      (case dict_get payload ''chunk_index'' (JInt 0) of
        Inl e \<Rightarrow> Inl e
      | Inr v \<Rightarrow>
      (case py_int v of
        Inl e \<Rightarrow> Inl e
      | Inr idx \<Rightarrow>
          if 0 < idx
          then (case dict_get payload ''content'' (JObj []) of
                  Inl e \<Rightarrow> Inl e
                | Inr c \<Rightarrow> Inr (AList.update idx c chunks))
          else Inr chunks))))"

fun load_chunk_files ::
  "pylib \<Rightarrow> fs \<Rightarrow> path list \<Rightarrow> (int \<times> json) list \<Rightarrow> error + (int \<times> json) list"
where
  "load_chunk_files L fs [] chunks = Inr chunks"
| "load_chunk_files L fs (p # ps) chunks =
     (case load_chunk_file L fs p chunks of
        Inl e \<Rightarrow> Inl e
      | Inr chunks' \<Rightarrow> load_chunk_files L fs ps chunks')"

definition load_summary_chunks :: "pylib \<Rightarrow> fs \<Rightarrow> date \<Rightarrow> error + (int \<times> json) list" where
  "load_summary_chunks L fs target_date =
     load_chunk_files L fs (iterdir fs (summaries_dir target_date)) []"

definition save_response_chunk :: "pylib \<Rightarrow> date \<Rightarrow> int \<Rightarrow> string \<Rightarrow> fs \<Rightarrow> error + fs" where
  \<comment> \<open>the payload is the raw text of the model's answer, written as a JSON string\<close>
  "save_response_chunk L target_date idx response_payload fs =
     atomic_write (responses_dir target_date, ''response_part'' @ format_02d idx @ ''.json'')
       (json_dumps_indent L (JStr response_payload)) fs"

definition overall_summary_path :: "date \<Rightarrow> path" where
  "overall_summary_path target_date = (summaries_dir target_date, ''summary_overall.json'')"

definition save_overall_summary :: "pylib \<Rightarrow> date \<Rightarrow> json \<Rightarrow> fs \<Rightarrow> error + fs" where
  "save_overall_summary L target_date summ fs =
     atomic_write (overall_summary_path target_date)
       (json_dumps_indent L
          (JObj [(''date'', JStr (isoformat target_date)), (''type'', JStr ''overall''),
                 (''content'', summ)])) fs"

definition load_overall_summary :: "pylib \<Rightarrow> fs \<Rightarrow> date \<Rightarrow> error + json option" where
  "load_overall_summary L fs target_date =
     (let p = overall_summary_path target_date
      in if \<not> path_exists fs p then Inr None
         else case read_text fs p of
                Inl e \<Rightarrow> Inl e
              | Inr text \<Rightarrow>
                  (case loads L text of
                     Inl e \<Rightarrow> Inl e
                   | Inr payload \<Rightarrow>
                       (case dict_get payload ''content'' (JObj []) of
                          Inl e \<Rightarrow> Inl e
                        | Inr c \<Rightarrow> Inr (Some c))))"

definition save_overall_response :: "pylib \<Rightarrow> date \<Rightarrow> string \<Rightarrow> fs \<Rightarrow> error + fs" where
  "save_overall_response L target_date response_payload fs =
     atomic_write (responses_dir target_date, ''response_overall.json'')
       (json_dumps_indent L (JStr response_payload)) fs"

text \<open>Saving a collection of chunk summaries of one day, one after the other.\<close>

fun save_summary_chunks :: "pylib \<Rightarrow> date \<Rightarrow> (int \<times> json) list \<Rightarrow> fs \<Rightarrow> error + fs" where
  "save_summary_chunks L d [] fs = Inr fs"
| "save_summary_chunks L d ((idx, c) # rest) fs =
     (case save_summary_chunk L \<lparr>chunk_date = d, chunk_index = idx, content = c\<rparr> fs of
        Inl e \<Rightarrow> Inl e
      | Inr fs' \<Rightarrow> save_summary_chunks L d rest fs')"

definition chunk_file :: "pylib \<Rightarrow> date \<Rightarrow> int \<times> json \<Rightarrow> path \<times> string" where
  \<comment> \<open>the file that \<open>save_summary_chunk\<close> leaves for a chunk: its path and its text\<close>
  "chunk_file L d ic =
     (summary_chunk_path d (fst ic),
      json_dumps_indent L (chunk_payload \<lparr>chunk_date = d, chunk_index = fst ic, content = snd ic\<rparr>))"


section \<open>Effects of a run: the world, the external collaborators, the trace\<close>

text \<open>
  A run acts on the file system and talks to three external collaborators: the feed
  fetcher, the text-generation service (asked once per chunk and once for the overall
  summary) and the mail transport. Their answers in one run are the fields of \<open>env\<close>,
  together with the clock. \<open>chunk_model E idx chunk\<close> is what
  \<open>_call_model_with_fallback(client, model, _build_prompt(target_date, chunk))\<close> returns
  for chunk \<open>idx\<close> (or the exception it raises), \<open>overall_model\<close> likewise for the
  prompt built from the chunk summaries.
\<close>

record env =
  current_date :: date  \<comment> \<open>\<open>date.today()\<close>\<close>
  current_utc :: string  \<comment> \<open>\<open>datetime.utcnow().isoformat()\<close>\<close>
  fetch_papers :: "string list \<Rightarrow> date \<Rightarrow> error + paper list"
  chunk_model :: "int \<Rightarrow> paper list \<Rightarrow> error + string"
  overall_model :: "json list \<Rightarrow> error + string"
  send_email :: "json list \<Rightarrow> json option \<Rightarrow> (string \<times> nat) list \<Rightarrow> error + unit"

record config =
  categories :: "string list"
  timezone :: string
  daily_time :: string
  retention_days :: int
  openai_base_url :: "string option"
  openai_chunk_model :: string
  openai_overall_model :: string
  openai_api_key :: "string option"
  smtp_host :: "string option"
  smtp_port :: int
  smtp_user :: "string option"
  smtp_password :: "string option"
  smtp_from :: "string option"
  smtp_to :: "string list"

definition configured :: "string option \<Rightarrow> bool" where
  \<comment> \<open>truth value of an optional string: neither \<open>None\<close> nor empty\<close>
  "configured v = (case v of None \<Rightarrow> False | Some s \<Rightarrow> s \<noteq> [])"

text \<open>
  The trace records, in order, every call to a collaborator (at the moment of the
  call) and every completed write. A run that is stopped leaves the file system of
  the moment and a prefix of the trace.
\<close>

datatype event =
    Fetched
  | ChunkModelCalled int
  | OverallModelCalled
  | EmailSent
  | SavedRawPapers
  | SavedState
  | SavedResponseChunk int
  | SavedSummaryChunk int
  | SavedOverallResponse
  | SavedOverallSummary

record world =
  files :: fs
  trace :: "event list"

type_synonym 'a io = "world \<Rightarrow> (error + 'a) \<times> world"

definition io_return :: "'a \<Rightarrow> 'a io" where
  "io_return x w = (Inr x, w)"

definition io_lift :: "error + 'a \<Rightarrow> 'a io" where
  \<comment> \<open>a computation without effects\<close>
  "io_lift r w = (r, w)"

definition io_bind :: "'a io \<Rightarrow> ('a \<Rightarrow> 'b io) \<Rightarrow> 'b io" where
  \<comment> \<open>sequencing; an exception ends the run with the world as it is\<close>
  "io_bind m f w = (case m w of (Inl e, w') \<Rightarrow> (Inl e, w') | (Inr x, w') \<Rightarrow> f x w')"

definition io_read :: "(fs \<Rightarrow> error + 'a) \<Rightarrow> 'a io" where
  "io_read f w = (f (files w), w)"

definition io_save :: "event \<Rightarrow> (fs \<Rightarrow> error + fs) \<Rightarrow> unit io" where
  \<comment> \<open>a write of the persistence layer, recorded in the trace once it is complete\<close>
  "io_save ev f w =
     (case f (files w) of
        Inl e \<Rightarrow> (Inl e, w)
      | Inr fs' \<Rightarrow> (Inr (), \<lparr>files = fs', trace = trace w @ [ev]\<rparr>))"

definition io_call :: "event \<Rightarrow> error + 'a \<Rightarrow> 'a io" where
  \<comment> \<open>a call to a collaborator, recorded when it is made\<close>
  "io_call ev answer w = (answer, w\<lparr>trace := trace w @ [ev]\<rparr>)"

section \<open>Chunk summarizer (summarizer.py)\<close>

function chunk_items :: "nat \<Rightarrow> 'a list \<Rightarrow> 'a list list" where
  \<comment> \<open>\<open>_chunk(items, size)\<close> for a positive size\<close>
  "chunk_items n items =
     (if n = 0 \<or> items = [] then []
      else take n items # chunk_items n (drop n items))"
  by pat_completeness auto
termination
  by (relation "measure (\<lambda>(n, items). length items)") auto

declare chunk_items.simps [simp del]

definition re_search_braces :: "string \<Rightarrow> string option" where
  \<comment> \<open>\<open>re.search(r"\{.*\}", text, re.DOTALL)\<close>: from the first opening brace to the last
      closing brace after it\<close>
  "re_search_braces s =
     (case dropWhile (\<lambda>c. c \<noteq> CHR ''{'') s of
        [] \<Rightarrow> None
      | b # rest \<Rightarrow>
          if CHR ''}'' \<in> set rest
          then Some (b # rev (dropWhile (\<lambda>c. c \<noteq> CHR ''}'') (rev rest)))
          else None)"

definition extract_json :: "pylib \<Rightarrow> string \<Rightarrow> error + json" where
  "extract_json L s =
     (case re_search_braces s of
        None \<Rightarrow> Inl ValueError
      | Some m \<Rightarrow> loads L m)"

definition parse_model_output :: "pylib \<Rightarrow> string \<Rightarrow> error + json" where
  \<comment> \<open>the \<open>try: json.loads ... except JSONDecodeError: _extract_json\<close> of both summarizers\<close>
  "parse_model_output L text_output =
     (case json_loads L text_output of
        Some payload \<Rightarrow> Inr payload
      | None \<Rightarrow> extract_json L text_output)"

definition summarize_chunk ::
  "pylib \<Rightarrow> env \<Rightarrow> (int \<Rightarrow> string \<Rightarrow> unit io) option \<Rightarrow> int \<Rightarrow> paper list \<Rightarrow> json io"
where
  \<comment> \<open>the body of the loop of \<open>summarize_papers_stream\<close> for a chunk that is not cached\<close>
  "summarize_chunk L E on_response idx chunk =
     io_bind (io_call (ChunkModelCalled idx) (chunk_model E idx chunk)) (\<lambda>text_output.
     io_bind (case on_response of None \<Rightarrow> io_return () | Some f \<Rightarrow> f idx text_output) (\<lambda>_.
     io_lift (parse_model_output L text_output)))"

fun stream_chunks ::
  "pylib \<Rightarrow> env \<Rightarrow> (int \<times> json) list \<Rightarrow> (int \<Rightarrow> string \<Rightarrow> unit io) option \<Rightarrow>
   int \<Rightarrow> paper list list \<Rightarrow> (int \<times> json) list \<Rightarrow> (int \<times> json) list io"
where
  "stream_chunks L E existing_chunks on_response idx [] outputs w = (Inr outputs, w)"
| "stream_chunks L E existing_chunks on_response idx (chunk # chunks) outputs w =
     (case map_of existing_chunks idx of
        Some cached \<Rightarrow>
          stream_chunks L E existing_chunks on_response (idx + 1) chunks
            (outputs @ [(idx, cached)]) w
      | None \<Rightarrow>
          (case summarize_chunk L E on_response idx chunk w of
             (Inl e, w') \<Rightarrow> (Inl e, w')
           | (Inr payload, w') \<Rightarrow>
               stream_chunks L E existing_chunks on_response (idx + 1) chunks
                 (outputs @ [(idx, payload)]) w'))"

definition summarize_papers_stream ::
  "pylib \<Rightarrow> env \<Rightarrow> paper list \<Rightarrow> nat \<Rightarrow> (int \<times> json) list \<Rightarrow>
   (int \<Rightarrow> string \<Rightarrow> unit io) option \<Rightarrow> (int \<times> json) list io"
where
  "summarize_papers_stream L E papers chunk_size existing_chunks on_response =
     (if papers = [] then io_return []
      else if chunk_size = 0 then io_lift (Inl ValueError)
      else stream_chunks L E existing_chunks on_response 1 (chunk_items chunk_size papers) [])"

definition summarize_overall ::
  "pylib \<Rightarrow> env \<Rightarrow> json list \<Rightarrow> (string \<Rightarrow> unit io) option \<Rightarrow> json io"
where
  "summarize_overall L E summaries on_response =
     (if summaries = [] then io_return (JObj [])
      else
        io_bind (io_call OverallModelCalled (overall_model E summaries)) (\<lambda>text_output.
        io_bind (case on_response of None \<Rightarrow> io_return () | Some f \<Rightarrow> f text_output) (\<lambda>_.
        io_lift (parse_model_output L text_output))))"

section \<open>Run orchestrator (main.py)\<close>

definition str_item :: "json \<Rightarrow> string \<Rightarrow> error + string" where
  \<comment> \<open>\<open>item[key]\<close>, which the typed \<open>paper\<close> needs to be a string\<close>
  "str_item item key =
     (case dict_item item key of
        Inl e \<Rightarrow> Inl e
      | Inr (JStr s) \<Rightarrow> Inr s
      | Inr _ \<Rightarrow> Inl TypeError)"

definition paper_of_item :: "json \<Rightarrow> error + paper" where
  "paper_of_item item =
     (case str_item item ''paper_id'' of Inl e \<Rightarrow> Inl e | Inr pid \<Rightarrow>
     (case str_item item ''title'' of Inl e \<Rightarrow> Inl e | Inr ti \<Rightarrow>
     (case str_item item ''summary'' of Inl e \<Rightarrow> Inl e | Inr su \<Rightarrow>
     (case dict_item item ''authors'' of Inl e \<Rightarrow> Inl e | Inr au \<Rightarrow>
     (case (case au of JArr js \<Rightarrow> decode_ids js | _ \<Rightarrow> Inl TypeError) of Inl e \<Rightarrow> Inl e | Inr aus \<Rightarrow>
     (case str_item item ''link'' of Inl e \<Rightarrow> Inl e | Inr li \<Rightarrow>
     (case str_item item ''category'' of Inl e \<Rightarrow> Inl e | Inr ca \<Rightarrow>
     (case str_item item ''published'' of Inl e \<Rightarrow> Inl e | Inr pu \<Rightarrow>
     (case str_item item ''updated'' of Inl e \<Rightarrow> Inl e | Inr up \<Rightarrow>
        Inr \<lparr>paper_id = pid, title = ti, summary = su, authors = aus, link = li,
             category = ca, published = pu, updated = up\<rparr>)))))))))"

fun papers_of_items :: "json list \<Rightarrow> error + paper list" where
  "papers_of_items [] = Inr []"
| "papers_of_items (item # items) =
     (case paper_of_item item of
        Inl e \<Rightarrow> Inl e
      | Inr p \<Rightarrow> (case papers_of_items items of Inl e \<Rightarrow> Inl e | Inr ps \<Rightarrow> Inr (p # ps)))"

definition load_papers_from_storage :: "pylib \<Rightarrow> fs \<Rightarrow> date \<Rightarrow> error + paper list" where
  "load_papers_from_storage L fs target_date =
     (case read_raw_papers L fs target_date of
        Inl e \<Rightarrow> Inl e
      | Inr raw_items \<Rightarrow> papers_of_items raw_items)"

definition expected_chunks :: "paper list \<Rightarrow> nat" where
  \<comment> \<open>\<open>math.ceil(len(papers) / chunk_size) if papers else 0\<close> with \<open>chunk_size = 20\<close>\<close>
  "expected_chunks papers = (if papers \<noteq> [] then (length papers + 19) div 20 else 0)"

definition select_new_papers ::
  "paper list \<Rightarrow> bool \<Rightarrow> (int \<times> json) list \<Rightarrow> paper list \<Rightarrow> string set \<Rightarrow> paper list"
where
  \<comment> \<open>lines 77 to 86 of \<open>_run_once\<close>\<close>
  "select_new_papers stored_papers has_summary existing_chunks papers seen_ids =
     (if stored_papers \<noteq> [] \<and> (\<not> has_summary \<or> length existing_chunks < expected_chunks papers)
      then papers
      else filter (\<lambda>p. paper_id p \<notin> seen_ids) papers)"

fun lookup_chunks :: "(int \<times> json) list \<Rightarrow> int list \<Rightarrow> error + json list" where
  \<comment> \<open>\<open>[existing_chunks[idx] for idx in ...]\<close>\<close>
  "lookup_chunks existing_chunks [] = Inr []"
| "lookup_chunks existing_chunks (idx # rest) =
     (case map_of existing_chunks idx of
        None \<Rightarrow> Inl KeyError
      | Some c \<Rightarrow>
          (case lookup_chunks existing_chunks rest of Inl e \<Rightarrow> Inl e | Inr cs \<Rightarrow> Inr (c # cs)))"

fun save_new_chunks ::
  "pylib \<Rightarrow> date \<Rightarrow> (int \<times> json) list \<Rightarrow> (int \<times> json) list \<Rightarrow> json list \<Rightarrow> json list io"
where
  \<comment> \<open>lines 121 to 131 of \<open>_run_once\<close>\<close>
  "save_new_chunks L target_date existing_chunks [] summaries w = (Inr summaries, w)"
| "save_new_chunks L target_date existing_chunks ((idx, summ) # rest) summaries w =
     (if map_of existing_chunks idx = None
      then (case io_save (SavedSummaryChunk idx)
                   (save_summary_chunk L
                      \<lparr>chunk_date = target_date, chunk_index = idx, content = summ\<rparr>) w of
              (Inl e, w') \<Rightarrow> (Inl e, w')
            | (Inr _, w') \<Rightarrow>
                save_new_chunks L target_date existing_chunks rest (summaries @ [summ]) w')
      else save_new_chunks L target_date existing_chunks rest (summaries @ [summ]) w)"

definition category_counts :: "paper list \<Rightarrow> (string \<times> nat) list" where
  \<comment> \<open>\<open>dict(sorted(Counter(paper.category for paper in papers).items()))\<close>\<close>
  "category_counts papers =
     (let cats = map category papers
      in map (\<lambda>c. (c, count_list cats c)) (sort (remdups cats)))"

datatype outcome =
    SkippedNoNewPapers
  | SkippedNoApiKey
  | Completed (chunk_summaries: "json list") (overall_summary: "json option") (emailed: bool)

definition finish_run ::
  "pylib \<Rightarrow> env \<Rightarrow> config \<Rightarrow> date \<Rightarrow> paper list \<Rightarrow> json list \<Rightarrow> outcome io"
where
  \<comment> \<open>lines 133 to 177 of \<open>_run_once\<close>: overall summary and mail\<close>
  "finish_run L E cfg target_date papers summaries =
     io_bind (io_read (\<lambda>fs. load_overall_summary L fs target_date)) (\<lambda>loaded.
     io_bind
       (if \<not> (case loaded of None \<Rightarrow> False | Some j \<Rightarrow> truthy j)
        then (if \<not> configured (openai_api_key cfg) then io_return loaded
              else
                io_bind (summarize_overall L E summaries
                           (Some (\<lambda>payload. io_save SavedOverallResponse
                                    (save_overall_response L target_date payload)))) (\<lambda>overall.
                io_bind (io_save SavedOverallSummary
                           (save_overall_summary L target_date overall)) (\<lambda>_.
                io_return (Some overall))))
        else io_return loaded) (\<lambda>overall.
     if configured (smtp_host cfg) \<and> configured (smtp_user cfg)
        \<and> configured (smtp_password cfg) \<and> smtp_to cfg \<noteq> []
     then io_bind (io_call EmailSent (send_email E summaries overall (category_counts papers)))
            (\<lambda>_. io_return (Completed summaries overall True))
     else io_return (Completed summaries overall False)))"

definition snapshot_stage :: "pylib \<Rightarrow> env \<Rightarrow> config \<Rightarrow> date \<Rightarrow> paper list \<Rightarrow> paper list io" where
  \<comment> \<open>lines 65 to 71 of \<open>_run_once\<close>: reuse the stored snapshot or fetch and store one\<close>
  "snapshot_stage L E cfg target_date stored_papers =
     (if stored_papers \<noteq> [] then io_return stored_papers
      else
        io_bind (io_call Fetched (fetch_papers E (categories cfg) target_date)) (\<lambda>papers.
        io_bind (io_save SavedRawPapers (save_raw_papers L target_date papers)) (\<lambda>_.
        io_return papers)))"

definition delta_stage ::
  "pylib \<Rightarrow> env \<Rightarrow> config \<Rightarrow> date \<Rightarrow> (paper list \<times> (int \<times> json) list \<times> paper list) io"
where
  \<comment> \<open>lines 60 to 93 of \<open>_run_once\<close>; the result is
      \<open>(papers, existing_chunks, new_papers)\<close>\<close>
  "delta_stage L E cfg target_date =
     io_bind (io_read (load_state L)) (\<lambda>state.
     io_bind (io_lift (build_seen_set (current_date E) state (retention_days cfg))) (\<lambda>seen_ids.
     io_bind (io_read (\<lambda>fs. load_papers_from_storage L fs target_date)) (\<lambda>stored_papers.
     io_bind (io_read (\<lambda>fs. Inr (has_summary_for_date fs target_date))) (\<lambda>has_summary.
     io_bind (snapshot_stage L E cfg target_date stored_papers) (\<lambda>papers.
     io_bind (io_read (\<lambda>fs. load_summary_chunks L fs target_date)) (\<lambda>existing_chunks.
     let new_papers = select_new_papers stored_papers has_summary existing_chunks papers seen_ids
     in
     io_bind (io_lift (update_state_with_papers (current_utc E) state target_date new_papers))
       (\<lambda>state'.
     io_bind (io_save SavedState (save_state L state')) (\<lambda>_.
     io_return (papers, existing_chunks, new_papers)))))))))"

datatype chunks_result =
    NothingNew
  | NoApiKey
  | ChunkSummaries "json list"

definition chunk_stage ::
  "pylib \<Rightarrow> env \<Rightarrow> config \<Rightarrow> date \<Rightarrow> (int \<times> json) list \<Rightarrow> paper list \<Rightarrow> chunks_result io"
where
  \<comment> \<open>lines 95 to 131 of \<open>_run_once\<close>\<close>
  "chunk_stage L E cfg target_date existing_chunks new_papers =
     (if new_papers = []
      then (if existing_chunks = [] then io_return NothingNew
            else
              io_bind (io_lift (lookup_chunks existing_chunks (sort (map fst existing_chunks))))
                (\<lambda>summaries. io_return (ChunkSummaries summaries)))
      else if \<not> configured (openai_api_key cfg) then io_return NoApiKey
      else
        io_bind (summarize_papers_stream L E new_papers 20 existing_chunks
                   (Some (\<lambda>idx payload. io_save (SavedResponseChunk idx)
                            (save_response_chunk L target_date idx payload)))) (\<lambda>summary_pairs.
        io_bind (save_new_chunks L target_date existing_chunks summary_pairs []) (\<lambda>summaries.
        io_return (ChunkSummaries summaries))))"

definition chunks_of_run ::
  "pylib \<Rightarrow> env \<Rightarrow> config \<Rightarrow> date \<Rightarrow> (paper list \<times> chunks_result) io"
where
  \<comment> \<open>lines 60 to 131 of \<open>_run_once\<close>: the day's papers and its chunk summaries\<close>
  "chunks_of_run L E cfg target_date =
     io_bind (delta_stage L E cfg target_date) (\<lambda>(papers, existing_chunks, new_papers).
     io_bind (chunk_stage L E cfg target_date existing_chunks new_papers) (\<lambda>r.
     io_return (papers, r)))"

definition run_once :: "pylib \<Rightarrow> env \<Rightarrow> config \<Rightarrow> date \<Rightarrow> outcome io" where
  \<comment> \<open>\<open>_run_once\<close>, the stages in sequence\<close>
  "run_once L E cfg target_date =
     io_bind (chunks_of_run L E cfg target_date) (\<lambda>(papers, r).
     case r of
       NothingNew \<Rightarrow> io_return SkippedNoNewPapers
     | NoApiKey \<Rightarrow> io_return SkippedNoApiKey
     | ChunkSummaries summaries \<Rightarrow> finish_run L E cfg target_date papers summaries)"

definition run_events :: "'a io \<Rightarrow> world \<Rightarrow> event list" where
  \<comment> \<open>the events that a computation adds to the trace\<close>
  "run_events m w = drop (length (trace w)) (trace (snd (m w)))"

definition emits :: "event set \<Rightarrow> 'a io \<Rightarrow> bool" where
  \<comment> \<open>the computation only adds events to the trace, and only events of the set\<close>
  "emits A m = (\<forall>w. \<exists>evs. trace (snd (m w)) = trace w @ evs \<and> set evs \<subseteq> A)"

text \<open>
  Names for what the writes of the delta stage leave behind: the state recorded by
  \<open>update_state_with_papers\<close>, and the file system after \<open>save_state\<close> and after
  \<open>save_raw_papers\<close>.
\<close>

definition state_after :: "env \<Rightarrow> run_state \<Rightarrow> date \<Rightarrow> paper list \<Rightarrow> run_state" where
  "state_after E st d new_papers =
     \<lparr>seen_by_date = AList.update d (recorded st d @ map paper_id new_papers) (seen_by_date st),
      last_run_date = Some (current_utc E)\<rparr>"

definition files_after_state :: "pylib \<Rightarrow> run_state \<Rightarrow> fs \<Rightarrow> fs" where
  "files_after_state L st fs =
     AList.update state_path (json_dumps_indent L (state_to_json st))
       (AList.delete (with_tmp_suffix state_path) fs)"

definition files_after_raw :: "pylib \<Rightarrow> date \<Rightarrow> paper list \<Rightarrow> fs \<Rightarrow> fs" where
  "files_after_raw L d papers fs =
     AList.update (raw_papers_path d)
       (join_lines (map (\<lambda>p. json_dumps L (to_dict p)) papers) @ (if papers \<noteq> [] then [CHR 0x0A] else []))
       (AList.delete (with_tmp_suffix (raw_papers_path d)) fs)"

definition files_after_response :: "pylib \<Rightarrow> date \<Rightarrow> int \<Rightarrow> string \<Rightarrow> fs \<Rightarrow> fs" where
  "files_after_response L d idx t fs =
     AList.update (responses_dir d, ''response_part'' @ format_02d idx @ ''.json'')
       (json_dumps_indent L (JStr t))
       (AList.delete (with_tmp_suffix (responses_dir d, ''response_part'' @ format_02d idx @ ''.json'')) fs)"

definition files_after_chunk :: "pylib \<Rightarrow> date \<Rightarrow> int \<Rightarrow> json \<Rightarrow> fs \<Rightarrow> fs" where
  "files_after_chunk L d idx c fs =
     AList.update (summary_chunk_path d idx)
       (json_dumps_indent L (chunk_payload \<lparr>chunk_date = d, chunk_index = idx, content = c\<rparr>))
       (AList.delete (with_tmp_suffix (summary_chunk_path d idx)) fs)"


section \<open>Example inputs\<close>

definition retention_example_state :: run_state where
  \<comment> \<open>one paper id recorded under 2023-11-01 (day 738825) and again under
      2024-01-04 (day 738889)\<close>
  "retention_example_state =
     \<lparr>seen_by_date = [(738825, [''2311.00001v1'']), (738889, [''2311.00001v1''])],
      last_run_date = None\<rparr>"

definition example_paper :: "string \<Rightarrow> paper" where
  "example_paper i =
     \<lparr>paper_id = i, title = ''T'', summary = ''S'', authors = [''A''], link = ''L'',
      category = ''cs.AI'', published = ''2024-01-05T00:00:00'',
      updated = ''2024-01-05T00:00:00''\<rparr>"


definition example_papers :: "nat \<Rightarrow> paper list" where
  \<comment> \<open>\<open>n\<close> papers with the ids \<open>2401.00001v1\<close>, \<open>2401.00002v1\<close>, ...\<close>
  "example_papers n = map (\<lambda>k. example_paper (''2401.'' @ format_d 5 k @ ''v1'')) [1 ..< Suc n]"

text \<open>
  An instance of the JSON library for the examples: a printer and a reader for the
  documents whose strings need no escaping and that hold no floating-point number.
  \<open>render_json\<close> prints on one line with the separators of \<open>json.dumps\<close>,
  \<open>render_indented\<close> prints as \<open>json.dumps(..., indent=2)\<close> does, and
  \<open>parse_json\<close> reads both forms back; it rejects a text that is not a JSON document
  (the empty text, a truncated document, prose around a document), as
  \<open>json.loads\<close> does.
\<close>

fun join_with :: "string \<Rightarrow> string list \<Rightarrow> string" where
  "join_with sep [] = []"
| "join_with sep [x] = x"
| "join_with sep (x # xs) = x @ sep @ join_with sep xs"

definition render_int :: "int \<Rightarrow> string" where
  "render_int n = (if n < 0 then ''-'' @ format_d 1 (nat (- n)) else format_d 1 (nat n))"

fun render_json :: "json \<Rightarrow> string" where
  "render_json JNull = ''null''"
| "render_json (JBool b) = (if b then ''true'' else ''false'')"
| "render_json (JInt n) = render_int n"
| "render_json (JStr s) = [CHR 0x22] @ s @ [CHR 0x22]"
| "render_json (JArr xs) = ''['' @ join_with '', '' (map render_json xs) @ '']''"
| "render_json (JObj kvs) =
     ''{'' @ join_with '', ''
              (map (\<lambda>kv. [CHR 0x22] @ fst kv @ [CHR 0x22] @ '': '' @ render_json (snd kv)) kvs)
     @ ''}''"

fun render_indented :: "nat \<Rightarrow> json \<Rightarrow> string" where
  "render_indented lvl (JArr xs) =
     (if xs = [] then ''[]''
      else ''['' @ [CHR 0x0A] @ replicate (2 * Suc lvl) CHR '' ''
           @ join_with ('','' @ [CHR 0x0A] @ replicate (2 * Suc lvl) CHR '' '')
               (map (render_indented (Suc lvl)) xs)
           @ [CHR 0x0A] @ replicate (2 * lvl) CHR '' '' @ '']'')"
| "render_indented lvl (JObj kvs) =
     (if kvs = [] then ''{}''
      else ''{'' @ [CHR 0x0A] @ replicate (2 * Suc lvl) CHR '' ''
           @ join_with ('','' @ [CHR 0x0A] @ replicate (2 * Suc lvl) CHR '' '')
               (map (\<lambda>kv. [CHR 0x22] @ fst kv @ [CHR 0x22] @ '': ''
                           @ render_indented (Suc lvl) (snd kv)) kvs)
           @ [CHR 0x0A] @ replicate (2 * lvl) CHR '' '' @ ''}'')"
| "render_indented lvl j = render_json j"

definition skip_ws :: "string \<Rightarrow> string" where
  "skip_ws s = dropWhile (\<lambda>c. (of_char c :: nat) \<in> {9, 10, 13, 32}) s"

definition parse_string_body :: "string \<Rightarrow> (string \<times> string) option" where
  \<comment> \<open>after the opening quote: the characters up to the closing quote, and the rest\<close>
  "parse_string_body s =
     (let str = takeWhile (\<lambda>c. c \<noteq> CHR 0x22) s;
          r = dropWhile (\<lambda>c. c \<noteq> CHR 0x22) s
      in if r = [] \<or> list_ex (\<lambda>c. c = CHR 0x5C \<or> (of_char c :: nat) < 32) str then None
         else Some (str, tl r))"

definition parse_number :: "string \<Rightarrow> (json \<times> string) option" where
  "parse_number s =
     (let neg = (s \<noteq> [] \<and> hd s = CHR ''-'');
          body = (if neg then tl s else s);
          ds = takeWhile is_digit body;
          r = dropWhile is_digit body
      in if ds = [] \<or> (hd ds = CHR ''0'' \<and> length ds \<noteq> 1) then None
         else if r \<noteq> [] \<and> hd r \<in> {CHR ''.'', CHR ''e'', CHR ''E''} then None
         else Some (JInt ((if neg then - 1 else 1) * int (nat_of_digits 0 ds)), r))"

fun parse_value :: "nat \<Rightarrow> string \<Rightarrow> (json \<times> string) option"
  and parse_elems :: "nat \<Rightarrow> string \<Rightarrow> json list \<Rightarrow> (json \<times> string) option"
  and parse_members :: "nat \<Rightarrow> string \<Rightarrow> (string \<times> json) list \<Rightarrow> (json \<times> string) option"
where
  "parse_value 0 s = None"
| "parse_value (Suc n) s =
     (let t = skip_ws s
      in if take 4 t = ''null'' then Some (JNull, drop 4 t)
         else if take 4 t = ''true'' then Some (JBool True, drop 4 t)
         else if take 5 t = ''false'' then Some (JBool False, drop 5 t)
         else if take 1 t = [CHR 0x22]
           then (case parse_string_body (drop 1 t) of
                   None \<Rightarrow> None
                 | Some (str, r) \<Rightarrow> Some (JStr str, r))
         else if take 1 t = ''[''
           then (if take 1 (skip_ws (drop 1 t)) = '']''
                 then Some (JArr [], drop 1 (skip_ws (drop 1 t)))
                 else parse_elems n (drop 1 t) [])
         else if take 1 t = ''{''
           then (if take 1 (skip_ws (drop 1 t)) = ''}''
                 then Some (JObj [], drop 1 (skip_ws (drop 1 t)))
                 else parse_members n (drop 1 t) [])
         else parse_number t)"
| "parse_elems 0 s acc = None"
| "parse_elems (Suc n) s acc =
     (case parse_value n s of
        None \<Rightarrow> None
      | Some (v, r) \<Rightarrow>
          (let t = skip_ws r
           in if take 1 t = '','' then parse_elems n (drop 1 t) (acc @ [v])
              else if take 1 t = '']'' then Some (JArr (acc @ [v]), drop 1 t)
              else None))"
| "parse_members 0 s acc = None"
| "parse_members (Suc n) s acc =
     (let t = skip_ws s
      in if take 1 t \<noteq> [CHR 0x22] then None
         else case parse_string_body (drop 1 t) of
           None \<Rightarrow> None
         | Some (k, r1) \<Rightarrow>
             (let t1 = skip_ws r1
              in if take 1 t1 \<noteq> '':'' then None
                 else case parse_value n (drop 1 t1) of
                   None \<Rightarrow> None
                 | Some (v, r2) \<Rightarrow>
                     (let t2 = skip_ws r2
                      in if take 1 t2 = '','' then parse_members n (drop 1 t2) (AList.update k v acc)
                         else if take 1 t2 = ''}'' then Some (JObj (AList.update k v acc), drop 1 t2)
                         else None)))"

definition parse_json :: "string \<Rightarrow> json option" where
  "parse_json s =
     (case parse_value (Suc (length s)) s of
        None \<Rightarrow> None
      | Some (v, r) \<Rightarrow> if skip_ws r = [] then Some v else None)"

definition example_chunk_doc :: "int \<Rightarrow> string \<Rightarrow> json" where
  "example_chunk_doc idx s =
     JObj [(''date'', JStr ''2024-01-05''), (''chunk_index'', JInt idx),
           (''content'', JObj [(''summary'', JStr s)])]"

definition example_chunk_text :: "int \<Rightarrow> string \<Rightarrow> string" where
  "example_chunk_text idx s = render_indented 0 (example_chunk_doc idx s)"

definition example_lib :: pylib where
  "example_lib =
     \<lparr>json_loads = parse_json, json_dumps_indent = render_indented 0, json_dumps = render_json\<rparr>"

definition example_chunks :: "(int \<times> json) list" where
  "example_chunks = [(1, JObj [(''summary'', JStr ''first'')]), (2, JObj [(''summary'', JStr ''second'')])]"

definition stray_chunk_path :: path where
  "stray_chunk_path = ([''2024-01-05'', ''summaries''], ''summary_part00.json'')"

definition stray_chunk_fs :: fs where
  \<open>stray_chunk_fs = [(stray_chunk_path, example_chunk_text 0 ''stray'')]\<close>

definition interrupted_chunk_fs :: fs where
  \<comment> \<open>the day's summaries directory after \<open>save_summary_chunk\<close> for chunk 1 was interrupted
      ten characters into writing its temporary file\<close>
  \<open>interrupted_chunk_fs =
     [(([''2024-01-05'', ''summaries''], ''summary_part01.json.tmp''),
       take 10 (example_chunk_text 1 ''first''))]\<close>



definition example_config :: config where
  \<comment> \<open>the service is configured, the mail transport is not\<close>
  "example_config =
     \<lparr>categories = [''cs.AI''], timezone = ''Asia/Shanghai'', daily_time = ''09:00'',
      retention_days = 30, openai_base_url = None, openai_chunk_model = ''gpt-4.1-mini'',
      openai_overall_model = ''claude-sonnet-4-5-20250929'', openai_api_key = Some ''sk-test'',
      smtp_host = None, smtp_port = 465, smtp_user = None, smtp_password = None,
      smtp_from = None, smtp_to = []\<rparr>"

definition two_batch_env :: env where
  \<comment> \<open>the feed has 21 papers for the day; the service answers every chunk with \<open>{}\<close>\<close>
  "two_batch_env =
     \<lparr>current_date = 738891, current_utc = ''2024-01-06T01:00:00'',
      fetch_papers = (\<lambda>cats d. Inr (example_papers 21)),
      chunk_model = (\<lambda>idx chunk. Inr ''{}''),
      overall_model = (\<lambda>summaries. Inr ''{}''),
      send_email = (\<lambda>summaries overall counts. Inr ())\<rparr>"

definition failing_second_call_env :: env where
  \<comment> \<open>as \<open>two_batch_env\<close>, but the call for chunk 2 raises\<close>
  "failing_second_call_env =
     two_batch_env\<lparr>chunk_model := (\<lambda>idx chunk. if idx = 2 then Inl ExternalError else Inr ''{}'')\<rparr>"

definition resume_world :: world where
  \<comment> \<open>2024-01-05 with a stored snapshot of 45 papers and the chunk summaries 1 and 2,
      as a run leaves them that was stopped before chunk 3\<close>
  "resume_world =
     \<lparr>files =
        [(raw_papers_path 738890,
          join_lines (map (\<lambda>p. render_json (to_dict p)) (example_papers 45)) @ [CHR 0x0A]),
         (summary_chunk_path 738890 1, example_chunk_text 1 ''first''),
         (summary_chunk_path 738890 2, example_chunk_text 2 ''second'')],
      trace = []\<rparr>"


section \<open>Properties of the dedup state tracker\<close>

lemma date_minus_days_Inr:
  "date_minus_days d n = Inr c \<longleftrightarrow>
     (- 999999999 \<le> n \<and> n \<le> 999999999 \<and> MINORDINAL \<le> d - n \<and> d - n \<le> MAXORDINAL \<and> c = d - n)"
  by (auto simp: date_minus_days_def)

lemma recorded_nonempty_key:
  "x \<in> set (recorded st d) \<Longrightarrow> d \<in> fst ` set (seen_by_date st)"
  by (cases "map_of (seen_by_date st) d") (auto simp: recorded_def dest: map_of_SomeD intro: image_eqI [where x = "(d, y)" for y])

lemma build_seen_set_mem:
  assumes "build_seen_set today st r = Inr S"
  shows "x \<in> S \<longleftrightarrow> (\<exists>d. x \<in> set (recorded st d) \<and> today - d \<le> r)"
proof -
  from assms obtain cutoff where c: "date_minus_days today r = Inr cutoff"
    and S: "S = (\<Union>day \<in> set (filter (\<lambda>day. cutoff \<le> day) (map fst (seen_by_date st))).
                   set (recorded st day))"
    by (auto simp: build_seen_set_def Let_def split: sum.splits)
  from c have cut: "cutoff = today - r" by (simp add: date_minus_days_Inr)
  show ?thesis
  proof
    assume "x \<in> S"
    with S obtain d where "cutoff \<le> d" "x \<in> set (recorded st d)" by auto
    with cut show "\<exists>d. x \<in> set (recorded st d) \<and> today - d \<le> r" by (intro exI [of _ d]) simp
  next
    assume "\<exists>d. x \<in> set (recorded st d) \<and> today - d \<le> r"
    then obtain d where d: "x \<in> set (recorded st d)" "today - d \<le> r" by blast
    from d(1) have "d \<in> fst ` set (seen_by_date st)" by (rule recorded_nonempty_key)
    moreover from d(2) cut have "cutoff \<le> d" by simp
    ultimately show "x \<in> S" using S d(1) by auto
  qed
qed

lemma append_ids_total:
  "map_of sbd k = Some ids \<Longrightarrow>
   append_ids sbd k ps = Inr (AList.update k (ids @ map paper_id ps) sbd)"
proof (induction ps arbitrary: sbd ids)
  case Nil
  then show ?case by (simp add: update_triv)
next
  case (Cons p ps)
  have "map_of (AList.update k (ids @ [paper_id p]) sbd) k = Some (ids @ [paper_id p])"
    by (simp add: update_conv')
  from Cons.IH [OF this] Cons.prems show ?case by simp
qed

lemma update_state_with_papers_eq:
  "update_state_with_papers now st day ps =
     Inr \<lparr>seen_by_date = AList.update day (recorded st day @ map paper_id ps) (seen_by_date st),
          last_run_date = Some now\<rparr>"
proof (cases "map_of (seen_by_date st) day")
  case None
  have "map_of (AList.update day [] (seen_by_date st)) day = Some []"
    by (simp add: update_conv')
  from append_ids_total [OF this, of ps] None show ?thesis
    by (simp add: update_state_with_papers_def setdefault_def recorded_def)
next
  case (Some ids)
  from append_ids_total [OF Some, of ps] Some show ?thesis
    by (simp add: update_state_with_papers_def setdefault_def recorded_def)
qed

lemma recorded_after_update:
  assumes "update_state_with_papers now st day ps = Inr st'"
  shows "recorded st' d = (if d = day then recorded st day @ map paper_id ps else recorded st d)"
proof -
  from assms update_state_with_papers_eq [of now st day ps]
  have "seen_by_date st' = AList.update day (recorded st day @ map paper_id ps) (seen_by_date st)"
    by auto
  then show ?thesis by (simp add: recorded_def update_conv')
qed


text \<open>
  Claim C5, as stated, fails: an id recorded under a day outside the window is still in
  the seen set when it is also recorded under a day inside the window. On 2024-01-05
  (day 738890) with a retention of 30 days, the id recorded under 2023-11-01 is in the
  seen set although 65 days have passed since that day.
\<close>

theorem build_seen_set_window_counterexample:
  "''2311.00001v1'' \<in> set (recorded retention_example_state 738825)
   \<and> build_seen_set 738890 retention_example_state 30 = Inr {''2311.00001v1''}
   \<and> \<not> (738890 - 738825 \<le> (30::int))"
  by (simp add: retention_example_state_def recorded_def build_seen_set_def
      date_minus_days_def MINORDINAL_def MAXORDINAL_def)

text \<open>
  Claim C5, amended: whenever the cutoff day \<open>today - r\<close> is a representable date,
  \<open>build_seen_set\<close> returns a set, and an id is a member of it if and only if it is
  recorded under at least one day \<open>d\<close> with \<open>today - d \<le> r\<close>. Computing the set does
  not write the state: the function returns nothing but the set, and the state that the
  run records afterwards with \<open>update_state_with_papers\<close> still holds, for every day
  (inside the window or not), every id that was recorded before.
\<close>

theorem build_seen_set_retention_window:
  assumes "- 999999999 \<le> r" and "r \<le> 999999999"
    and "MINORDINAL \<le> today - r" and "today - r \<le> MAXORDINAL"
  shows "\<exists>S. build_seen_set today st r = Inr S
           \<and> (\<forall>x. x \<in> S \<longleftrightarrow> (\<exists>d. x \<in> set (recorded st d) \<and> today - d \<le> r))
           \<and> (\<forall>now day ps st' d. update_state_with_papers now st day ps = Inr st'
                 \<longrightarrow> set (recorded st d) \<subseteq> set (recorded st' d))"
proof -
  from assms have "date_minus_days today r = Inr (today - r)"
    by (simp add: date_minus_days_Inr)
  then obtain S where S: "build_seen_set today st r = Inr S"
    by (simp add: build_seen_set_def)
  have "\<forall>x. x \<in> S \<longleftrightarrow> (\<exists>d. x \<in> set (recorded st d) \<and> today - d \<le> r)"
    using build_seen_set_mem [OF S] by blast
  moreover have "set (recorded st d) \<subseteq> set (recorded st' d)"
    if "update_state_with_papers now st day ps = Inr st'" for now day ps st' d
    using recorded_after_update [OF that, of d] by auto
  ultimately show ?thesis using S by blast
qed

theorem build_seen_set_retention_window_witness:
  "(- 999999999 \<le> (30::int) \<and> (30::int) \<le> 999999999
      \<and> MINORDINAL \<le> 738890 - 30 \<and> 738890 - 30 \<le> MAXORDINAL)
   \<and> (\<exists>S. build_seen_set 738890 retention_example_state 30 = Inr S
         \<and> (''2311.00001v1'' \<in> S)
         \<and> (\<exists>d. ''2311.00001v1'' \<in> set (recorded retention_example_state d) \<and> 738890 - d \<le> 30))"
proof -
  have h: "- 999999999 \<le> (30::int)" "(30::int) \<le> 999999999"
    "MINORDINAL \<le> 738890 - 30" "738890 - 30 \<le> MAXORDINAL"
    by (simp_all add: MINORDINAL_def MAXORDINAL_def)
  from build_seen_set_retention_window [OF h, of retention_example_state]
  obtain S where S: "build_seen_set 738890 retention_example_state 30 = Inr S"
    and m: "\<And>x. x \<in> S \<longleftrightarrow>
              (\<exists>d. x \<in> set (recorded retention_example_state d) \<and> 738890 - d \<le> 30)"
    by blast
  have "''2311.00001v1'' \<in> set (recorded retention_example_state 738889)"
    by (simp add: retention_example_state_def recorded_def)
  then have e: "\<exists>d. ''2311.00001v1'' \<in> set (recorded retention_example_state d) \<and> 738890 - d \<le> 30"
    by (intro exI [of _ 738889]) simp
  with m have "''2311.00001v1'' \<in> S" by blast
  with h S e show ?thesis by blast
qed

text \<open>
  Claim C6: recording a list of items under a target day always yields a state (the
  subscript \<open>seen_by_date[day_key]\<close> cannot raise after \<open>setdefault\<close>); in the new
  state the ids under every day include the ids that were under that day in the old
  state, and the id of every recorded item is under the target day.
\<close>

theorem update_state_with_papers_monotone:
  "\<exists>st'. update_state_with_papers now st target_date papers = Inr st'
     \<and> (\<forall>d x. x \<in> set (recorded st d) \<longrightarrow> x \<in> set (recorded st' d))
     \<and> (\<forall>p. p \<in> set papers \<longrightarrow> paper_id p \<in> set (recorded st' target_date))"
proof -
  obtain st' where st': "update_state_with_papers now st target_date papers = Inr st'"
    using update_state_with_papers_eq by blast
  have "x \<in> set (recorded st' d)" if "x \<in> set (recorded st d)" for d x
    using that recorded_after_update [OF st', of d] by (simp split: if_splits)
  moreover have "paper_id p \<in> set (recorded st' target_date)" if "p \<in> set papers" for p
    using that recorded_after_update [OF st', of target_date] by simp
  ultimately show ?thesis using st' by blast
qed

theorem update_state_with_papers_monotone_witness:
  "\<exists>st'. update_state_with_papers ''2024-01-06T01:00:00'' retention_example_state 738889
            [example_paper ''2401.00002v1''] = Inr st'
     \<and> ''2311.00001v1'' \<in> set (recorded retention_example_state 738889)
     \<and> ''2311.00001v1'' \<in> set (recorded st' 738889)
     \<and> example_paper ''2401.00002v1'' \<in> set [example_paper ''2401.00002v1'']
     \<and> paper_id (example_paper ''2401.00002v1'') \<in> set (recorded st' 738889)"
proof -
  have r: "''2311.00001v1'' \<in> set (recorded retention_example_state 738889)"
    by (simp add: retention_example_state_def recorded_def)
  from update_state_with_papers_monotone
    [of "''2024-01-06T01:00:00''" retention_example_state 738889
        "[example_paper ''2401.00002v1'']"] r
  show ?thesis by auto
qed

section \<open>Properties of the persistence layer\<close>

lemma update_fresh: "k \<notin> fst ` set al \<Longrightarrow> AList.update k v al = al @ [(k, v)]"
  by (induction al) auto

lemma atomic_write_eq:
  "atomic_write p data fs = Inr (AList.update p data (AList.delete (with_tmp_suffix p) fs))"
  by (simp add: atomic_write_def replace_path_def write_text_def update_conv' delete_update_same)

lemma atomic_write_fresh:
  assumes "with_tmp_suffix p \<notin> fst ` set fs" and "p \<notin> fst ` set fs"
  shows "atomic_write p data fs = Inr (fs @ [(p, data)])"
  using assms by (simp add: atomic_write_eq update_fresh)

lemma nat_of_digits_append:
  "nat_of_digits acc (xs @ [c]) = nat_of_digits acc xs * 10 + (of_char c - 48)"
  by (induction xs arbitrary: acc) auto

lemma of_char_digit_char: "(of_char (digit_char n) :: nat) - 48 = n mod 10"
proof -
  have "48 + n mod 10 < (256::nat)" by (rule less_trans [of _ 58]) auto
  then show ?thesis by (simp add: )
qed

lemma nat_of_digits_digits_of: "nat_of_digits 0 (digits_of k n) = n mod 10 ^ k"
proof (induction k arbitrary: n)
  case 0
  then show ?case by simp
next
  case (Suc k)
  have "nat_of_digits 0 (digits_of (Suc k) n) = (n div 10) mod 10 ^ k * 10 + n mod 10"
    using Suc.IH [of "n div 10"] of_char_digit_char [of n]
    by (simp only: digits_of.simps nat_of_digits_append)
  also have "\<dots> = n mod 10 ^ Suc k"
    by (simp add: mod_mult2_eq)
  finally show ?case .
qed

lemma length_digits_of [simp]: "length (digits_of k n) = k"
  by (induction k arbitrary: n) auto

lemma num_width_bound: "n \<le> f \<Longrightarrow> n < 10 ^ num_width f n"
proof (induction f arbitrary: n)
  case 0
  then show ?case by simp
next
  case (Suc f)
  show ?case
  proof (cases "n < 10")
    case True
    then show ?thesis by simp
  next
    case False
    then have "n div 10 \<le> f" using Suc.prems by simp
    from Suc.IH [OF this] have "n div 10 < 10 ^ num_width f (n div 10)" .
    then have "n < 10 * 10 ^ num_width f (n div 10)" by simp
    with False show ?thesis by simp
  qed
qed

lemma format_d_inj:
  assumes "format_d w n = format_d w m"
  shows "n = m"
proof -
  let ?kn = "max w (num_width n n)" and ?km = "max w (num_width m m)"
  from assms have eq: "digits_of ?kn n = digits_of ?km m" by (simp add: format_d_def)
  then have "length (digits_of ?kn n) = length (digits_of ?km m)" by simp
  then have k: "?kn = ?km" by simp
  from eq have "nat_of_digits 0 (digits_of ?kn n) = nat_of_digits 0 (digits_of ?km m)" by simp
  then have md: "n mod 10 ^ ?kn = m mod 10 ^ ?km" by (simp only: nat_of_digits_digits_of)
  have "n < 10 ^ num_width n n" by (rule num_width_bound) simp
  also have "\<dots> \<le> (10::nat) ^ ?kn" by (rule power_increasing) auto
  finally have n: "n < 10 ^ ?kn" .
  have "m < 10 ^ num_width m m" by (rule num_width_bound) simp
  also have "\<dots> \<le> (10::nat) ^ ?km" by (rule power_increasing) auto
  finally have m: "m < 10 ^ ?km" .
  from md n m show ?thesis by simp
qed

lemma format_02d_inj:
  assumes "0 \<le> i" and "0 \<le> j" and "format_02d i = format_02d j"
  shows "i = j"
proof -
  from assms have "format_d 2 (nat i) = format_d 2 (nat j)" by (simp add: format_02d_def)
  then have "nat i = nat j" by (rule format_d_inj)
  with assms show ?thesis by simp
qed

lemma no_chunk_file_fresh:
  assumes "\<not> has_summary_for_date fs d" and "startswith n ''summary_part''"
  shows "(summaries_dir d, n) \<notin> fst ` set fs"
  using assms by (force simp: has_summary_for_date_def iterdir_def list_ex_iff)

lemma summary_chunk_path_inj:
  assumes "0 \<le> i" and "0 \<le> j" and "summary_chunk_path d i = summary_chunk_path d j"
  shows "i = j"
  using assms by (auto simp: summary_chunk_path_def dest: format_02d_inj)

lemma tmp_not_chunk_path:
  "with_tmp_suffix (summary_chunk_path d i) \<noteq> summary_chunk_path d j"
proof
  assume "with_tmp_suffix (summary_chunk_path d i) = summary_chunk_path d j"
  then have "last (''summary_part'' @ format_02d i @ ''.json.tmp'')
             = last (''summary_part'' @ format_02d j @ ''.json'')"
    by (simp add: with_tmp_suffix_def summary_chunk_path_def)
  then show False by simp
qed

lemma save_summary_chunks_fresh:
  assumes "distinct (map fst cs)" and "\<forall>ic \<in> set cs. 0 \<le> fst ic"
    and "\<forall>ic \<in> set cs. summary_chunk_path d (fst ic) \<notin> fst ` set fs
           \<and> with_tmp_suffix (summary_chunk_path d (fst ic)) \<notin> fst ` set fs"
  shows "save_summary_chunks L d cs fs = Inr (fs @ map (chunk_file L d) cs)"
  using assms
proof (induction cs arbitrary: fs)
  case Nil
  then show ?case by simp
next
  case (Cons ic cs)
  obtain i c where ic: "ic = (i, c)" by (cases ic)
  let ?p = "summary_chunk_path d i"
  let ?f = "chunk_file L d (i, c)"
  from Cons.prems ic have fresh: "?p \<notin> fst ` set fs" "with_tmp_suffix ?p \<notin> fst ` set fs"
    by auto
  have step: "save_summary_chunk L \<lparr>chunk_date = d, chunk_index = i, content = c\<rparr> fs
              = Inr (fs @ [?f])"
    using atomic_write_fresh [OF fresh(2) fresh(1)]
    by (simp add: save_summary_chunk_def chunk_file_def)
  have d': "distinct (map fst cs)" and nn: "\<forall>jc \<in> set cs. 0 \<le> fst jc"
    using Cons.prems by auto
  have "summary_chunk_path d (fst jc) \<notin> fst ` set (fs @ [?f])
        \<and> with_tmp_suffix (summary_chunk_path d (fst jc)) \<notin> fst ` set (fs @ [?f])"
    if jc: "jc \<in> set cs" for jc
  proof -
    from jc Cons.prems ic have ne: "fst jc \<noteq> i" and pos: "0 \<le> fst jc" "0 \<le> i" by force+
    from ne pos have "summary_chunk_path d (fst jc) \<noteq> ?p"
      using summary_chunk_path_inj by blast
    moreover have "with_tmp_suffix (summary_chunk_path d (fst jc)) \<noteq> ?p"
      by (rule tmp_not_chunk_path)
    ultimately show ?thesis using jc Cons.prems by (auto simp: chunk_file_def)
  qed
  then have "save_summary_chunks L d cs (fs @ [?f]) = Inr ((fs @ [?f]) @ map (chunk_file L d) cs)"
    using Cons.IH [OF d' nn] by blast
  with step ic show ?case by simp
qed

lemma load_chunk_files_skip:
  "\<forall>p \<in> set ps. \<not> startswith (snd p) ''summary_part'' \<Longrightarrow> load_chunk_files L fs ps acc = Inr acc"
  by (induction ps) (auto simp: load_chunk_file_def)

lemma load_chunk_files_append:
  "load_chunk_files L fs (ps @ qs) acc =
     (case load_chunk_files L fs ps acc of Inl e \<Rightarrow> Inl e | Inr a \<Rightarrow> load_chunk_files L fs qs a)"
  by (induction ps arbitrary: acc) (auto split: sum.splits)

lemma load_chunk_file_saved:
  assumes "0 < i" and "i \<notin> fst ` set acc"
    and "map_of F (fst (chunk_file L d (i, c))) = Some (snd (chunk_file L d (i, c)))"
    and "json_loads L (snd (chunk_file L d (i, c)))
           = Some (chunk_payload \<lparr>chunk_date = d, chunk_index = i, content = c\<rparr>)"
  shows "load_chunk_file L F (fst (chunk_file L d (i, c))) acc = Inr (acc @ [(i, c)])"
proof -
  have pre: "startswith (snd (fst (chunk_file L d (i, c)))) ''summary_part''"
    by (simp add: chunk_file_def summary_chunk_path_def startswith_def)
  have rd: "read_text F (fst (chunk_file L d (i, c))) = Inr (snd (chunk_file L d (i, c)))"
    using assms(3) by (simp add: read_text_def)
  have ld: "loads L (snd (chunk_file L d (i, c)))
      = Inr (chunk_payload \<lparr>chunk_date = d, chunk_index = i, content = c\<rparr>)"
    using assms(4) by (simp add: loads_def)
  have g1: "dict_get (chunk_payload \<lparr>chunk_date = d, chunk_index = i, content = c\<rparr>)
              ''chunk_index'' (JInt 0) = Inr (JInt i)"
    by (simp add: chunk_payload_def dict_get_def)
  have g2: "dict_get (chunk_payload \<lparr>chunk_date = d, chunk_index = i, content = c\<rparr>)
              ''content'' (JObj []) = Inr c"
    by (simp add: chunk_payload_def dict_get_def)
  have g3: "py_int (JInt i) = Inr i" by (simp add: py_int_def)
  show ?thesis
    unfolding load_chunk_file_def
    using pre assms(1) update_fresh [OF assms(2)]
    by (simp only: rd ld g1 g2 g3 sum.case if_True if_False not_True_eq_False)
qed

lemma load_chunk_files_saved:
  assumes "distinct (map fst cs)" and "\<forall>ic \<in> set cs. 0 < fst ic"
    and "\<forall>ic \<in> set cs. fst ic \<notin> fst ` set acc"
    and "\<forall>ic \<in> set cs. map_of F (fst (chunk_file L d ic)) = Some (snd (chunk_file L d ic))"
    and "\<forall>ic \<in> set cs. json_loads L (snd (chunk_file L d ic))
           = Some (chunk_payload \<lparr>chunk_date = d, chunk_index = fst ic, content = snd ic\<rparr>)"
  shows "load_chunk_files L F (map (\<lambda>ic. fst (chunk_file L d ic)) cs) acc = Inr (acc @ cs)"
  using assms
proof (induction cs arbitrary: acc)
  case Nil
  then show ?case by simp
next
  case (Cons ic cs)
  obtain i c where ic: "ic = (i, c)" by (cases ic)
  from Cons.prems ic have i: "0 < i" "i \<notin> fst ` set acc" by auto
  from Cons.prems(4) ic
  have m: "map_of F (fst (chunk_file L d (i, c))) = Some (snd (chunk_file L d (i, c)))"
    by simp
  from Cons.prems(5) ic
  have l: "json_loads L (snd (chunk_file L d (i, c)))
             = Some (chunk_payload \<lparr>chunk_date = d, chunk_index = i, content = c\<rparr>)"
    by simp
  have one: "load_chunk_file L F (fst (chunk_file L d (i, c))) acc = Inr (acc @ [(i, c)])"
    by (rule load_chunk_file_saved [OF i m l])
  have p1: "distinct (map fst cs)" using Cons.prems(1) by simp
  have p2: "\<forall>jc \<in> set cs. 0 < fst jc" using Cons.prems(2) by simp
  from Cons.prems(1) ic have inotin: "i \<notin> fst ` set cs" by simp
  have p3: "\<forall>jc \<in> set cs. fst jc \<notin> fst ` set (acc @ [(i, c)])"
  proof
    fix jc assume jc: "jc \<in> set cs"
    with inotin have "fst jc \<noteq> i" by (metis imageI)
    moreover from jc Cons.prems(3) have "fst jc \<notin> fst ` set acc" by simp
    ultimately show "fst jc \<notin> fst ` set (acc @ [(i, c)])" by simp
  qed
  have p4: "\<forall>jc \<in> set cs. map_of F (fst (chunk_file L d jc)) = Some (snd (chunk_file L d jc))"
    using Cons.prems(4) by simp
  have p5: "\<forall>jc \<in> set cs. json_loads L (snd (chunk_file L d jc))
           = Some (chunk_payload \<lparr>chunk_date = d, chunk_index = fst jc, content = snd jc\<rparr>)"
    using Cons.prems(5) by simp
  from Cons.IH [OF p1 p2 p3 p4 p5] one ic show ?case by simp
qed

lemma load_chunk_file_cong:
  "map_of fs p = map_of fs' p \<Longrightarrow> load_chunk_file L fs p acc = load_chunk_file L fs' p acc"
  by (simp add: load_chunk_file_def read_text_def)

lemma load_chunk_files_cong:
  "\<forall>p \<in> set ps. map_of fs p = map_of fs' p \<Longrightarrow>
   load_chunk_files L fs ps acc = load_chunk_files L fs' ps acc"
proof (induction ps arbitrary: acc)
  case Nil
  then show ?case by simp
next
  case (Cons p ps)
  then have "load_chunk_file L fs p acc = load_chunk_file L fs' p acc"
    by (intro load_chunk_file_cong) simp
  with Cons show ?case by (simp split: sum.splits)
qed

lemma load_chunk_files_filter:
  "load_chunk_files L fs (filter (\<lambda>p. startswith (snd p) ''summary_part'') ps) acc
   = load_chunk_files L fs ps acc"
proof (induction ps arbitrary: acc)
  case Nil
  then show ?case by simp
next
  case (Cons p ps)
  show ?case
  proof (cases "startswith (snd p) ''summary_part''")
    case True
    with Cons show ?thesis by (simp split: sum.splits)
  next
    case False
    then have "load_chunk_file L fs p acc = Inr acc" by (simp add: load_chunk_file_def)
    with False Cons show ?thesis by simp
  qed
qed

lemma chunk_entries_after_write:
  assumes "\<not> startswith (snd p) ''summary_part''"
  shows "filter (\<lambda>q. startswith (snd q) ''summary_part'')
           (iterdir (AList.update p data (AList.delete t fs)) dir)
         = filter (\<lambda>q. startswith (snd q) ''summary_part'')
           (iterdir (AList.delete t fs) dir)"
  using assms by (auto simp: iterdir_def update_keys)

lemma chunk_entries_after_delete:
  assumes "\<not> startswith (snd t) ''summary_part''"
  shows "filter (\<lambda>q. startswith (snd q) ''summary_part'') (iterdir (AList.delete t fs) dir)
         = filter (\<lambda>q. startswith (snd q) ''summary_part'') (iterdir fs dir)"
proof -
  have "filter (\<lambda>q. startswith (snd q) ''summary_part'') (filter (\<lambda>q. fst q = dir) (removeAll t ks))
      = filter (\<lambda>q. startswith (snd q) ''summary_part'') (filter (\<lambda>q. fst q = dir) ks)" for ks
    using assms by (induction ks) auto
  then show ?thesis by (simp add: iterdir_def delete_keys)
qed

lemma load_summary_chunks_other_write:
  assumes p: "\<not> startswith (snd p) ''summary_part''"
    and t: "\<not> startswith (snd (with_tmp_suffix p)) ''summary_part''"
    and w: "atomic_write p data fs = Inr fs'"
  shows "load_summary_chunks L fs' d = load_summary_chunks L fs d"
proof -
  let ?pre = "\<lambda>q. startswith (snd q) ''summary_part''"
  let ?t = "with_tmp_suffix p"
  from w have fs': "fs' = AList.update p data (AList.delete ?t fs)"
    by (simp add: atomic_write_eq)
  have ents: "filter ?pre (iterdir fs' (summaries_dir d)) = filter ?pre (iterdir fs (summaries_dir d))"
    unfolding fs' using chunk_entries_after_write [OF p] chunk_entries_after_delete [OF t] by simp
  have same: "\<forall>q \<in> set (filter ?pre (iterdir fs (summaries_dir d))). map_of fs' q = map_of fs q"
  proof
    fix q assume "q \<in> set (filter ?pre (iterdir fs (summaries_dir d)))"
    then have "?pre q" by simp
    with p t have "q \<noteq> p" "q \<noteq> ?t" by auto
    then show "map_of fs' q = map_of fs q" by (simp add: fs' update_conv' delete_conv')
  qed
  have "load_summary_chunks L fs' d
        = load_chunk_files L fs' (filter ?pre (iterdir fs' (summaries_dir d))) []"
    by (simp add: load_summary_chunks_def load_chunk_files_filter)
  also have "\<dots> = load_chunk_files L fs' (filter ?pre (iterdir fs (summaries_dir d))) []"
    by (simp only: ents)
  also have "\<dots> = load_chunk_files L fs (filter ?pre (iterdir fs (summaries_dir d))) []"
    by (rule load_chunk_files_cong [OF same])
  also have "\<dots> = load_summary_chunks L fs d"
    by (simp add: load_summary_chunks_def load_chunk_files_filter)
  finally show ?thesis .
qed

lemma save_overall_summary_keeps_chunks:
  "\<exists>fs'. save_overall_summary L d summ fs = Inr fs'
         \<and> load_summary_chunks L fs' d' = load_summary_chunks L fs d'"
proof -
  obtain fs' where w: "save_overall_summary L d summ fs = Inr fs'"
    by (simp add: save_overall_summary_def atomic_write_eq)
  have "load_summary_chunks L fs' d' = load_summary_chunks L fs d'"
    by (rule load_summary_chunks_other_write [OF _ _ w [unfolded save_overall_summary_def]])
       (simp_all add: overall_summary_path_def with_tmp_suffix_def startswith_def)
  with w show ?thesis by blast
qed

lemma load_chunk_file_ignored:
  assumes "map_of fs p = Some text" and "json_loads L text = Some (JObj kvs)"
    and "map_of kvs ''chunk_index'' = None
         \<or> (\<exists>n. map_of kvs ''chunk_index'' = Some (JInt n) \<and> n \<le> 0)"
  shows "load_chunk_file L fs p acc = Inr acc"
proof -
  have rd: "read_text fs p = Inr text" using assms(1) by (simp add: read_text_def)
  have ld: "loads L text = Inr (JObj kvs)" using assms(2) by (simp add: loads_def)
  from assms(3) obtain n where
    g: "dict_get (JObj kvs) ''chunk_index'' (JInt 0) = Inr (JInt n)" and n: "n \<le> 0"
    by (auto simp: dict_get_def)
  have g3: "py_int (JInt n) = Inr n" by (simp add: py_int_def)
  from n have n': "\<not> 0 < n" by simp
  show ?thesis
    unfolding load_chunk_file_def
    using n' by (simp add: rd ld g g3)
qed

lemma load_chunk_files_without:
  assumes "\<And>acc. load_chunk_file L fs p acc = Inr acc"
  shows "load_chunk_files L (AList.delete p fs) (removeAll p ps) acc = load_chunk_files L fs ps acc"
proof (induction ps arbitrary: acc)
  case Nil
  then show ?case by simp
next
  case (Cons q ps)
  show ?case
  proof (cases "q = p")
    case True
    with Cons assms show ?thesis by simp
  next
    case False
    then have "load_chunk_file L (AList.delete p fs) q acc = load_chunk_file L fs q acc"
      by (intro load_chunk_file_cong) (simp add: delete_conv')
    with False Cons show ?thesis by (simp split: sum.splits)
  qed
qed

lemma iterdir_delete: "iterdir (AList.delete p fs) dir = removeAll p (iterdir fs dir)"
  by (simp add: iterdir_def delete_keys removeAll_filter_not_eq conj_commute)

lemma load_summary_chunks_ignores:
  assumes "map_of fs p = Some text" and "json_loads L text = Some (JObj kvs)"
    and "map_of kvs ''chunk_index'' = None
         \<or> (\<exists>n. map_of kvs ''chunk_index'' = Some (JInt n) \<and> n \<le> 0)"
  shows "load_summary_chunks L (AList.delete p fs) d = load_summary_chunks L fs d"
  unfolding load_summary_chunks_def iterdir_delete
  by (rule load_chunk_files_without) (rule load_chunk_file_ignored [OF assms])

lemma load_summary_chunks_saved:
  assumes nc: "\<not> has_summary_for_date fs d"
    and dist: "distinct (map fst cs)" and pos: "\<forall>ic \<in> set cs. 0 < fst ic"
    and rt: "\<forall>ic \<in> set cs. json_loads L (snd (chunk_file L d ic))
           = Some (chunk_payload \<lparr>chunk_date = d, chunk_index = fst ic, content = snd ic\<rparr>)"
  shows "save_summary_chunks L d cs fs = Inr (fs @ map (chunk_file L d) cs)"
    and "load_summary_chunks L (fs @ map (chunk_file L d) cs) d = Inr cs"
proof -
  let ?new = "map (chunk_file L d) cs"
  let ?F = "fs @ ?new"
  have fresh: "summary_chunk_path d i \<notin> fst ` set fs"
      "with_tmp_suffix (summary_chunk_path d i) \<notin> fst ` set fs" for i
    using no_chunk_file_fresh [OF nc]
    by (simp_all add: summary_chunk_path_def with_tmp_suffix_def startswith_def)
  from pos have nn: "\<forall>ic \<in> set cs. 0 \<le> fst ic" by auto
  show "save_summary_chunks L d cs fs = Inr ?F"
    by (rule save_summary_chunks_fresh [OF dist nn]) (simp add: fresh)
  have inj: "inj_on (\<lambda>ic. fst (chunk_file L d ic)) (set cs)"
  proof (rule inj_onI)
    fix x y assume x: "x \<in> set cs" and y: "y \<in> set cs"
      and e: "fst (chunk_file L d x) = fst (chunk_file L d y)"
    from x y nn have "0 \<le> fst x" "0 \<le> fst y" by auto
    with e have "fst x = fst y" by (auto simp: chunk_file_def dest: summary_chunk_path_inj)
    with dist x y show "x = y" by (meson eq_key_imp_eq_value prod.expand distinct_map inj_onD)
  qed
  have dn: "distinct (map fst ?new)"
    using dist inj by (simp add: distinct_map comp_def inj_on_def)
  have look: "\<forall>ic \<in> set cs. map_of ?F (fst (chunk_file L d ic)) = Some (snd (chunk_file L d ic))"
  proof
    fix ic assume ic: "ic \<in> set cs"
    have "fst (chunk_file L d ic) \<notin> fst ` set fs" by (simp add: chunk_file_def fresh)
    then have "map_of fs (fst (chunk_file L d ic)) = None" by (simp add: map_of_eq_None_iff)
    moreover have "map_of ?new (fst (chunk_file L d ic)) = Some (snd (chunk_file L d ic))"
      using dn ic by (intro map_of_is_SomeI) auto
    ultimately show "map_of ?F (fst (chunk_file L d ic)) = Some (snd (chunk_file L d ic))"
      by (simp add: map_add_def)
  qed
  have indir: "iterdir ?F (summaries_dir d) = iterdir fs (summaries_dir d) @ map (\<lambda>ic. fst (chunk_file L d ic)) cs"
    by (simp add: iterdir_def chunk_file_def summary_chunk_path_def comp_def)
  have old: "load_chunk_files L ?F (iterdir fs (summaries_dir d)) [] = Inr []"
    using nc by (intro load_chunk_files_skip) (simp add: has_summary_for_date_def list_ex_iff)
  have new: "load_chunk_files L ?F (map (\<lambda>ic. fst (chunk_file L d ic)) cs) [] = Inr ([] @ cs)"
    by (rule load_chunk_files_saved [OF dist pos _ look rt]) simp
  show "load_summary_chunks L ?F d = Inr cs"
    using old new by (simp add: load_summary_chunks_def indir load_chunk_files_append)
qed

text \<open>
  A reader that opens the final path sees, in every state that an interruption of
  \<open>_atomic_write\<close> can leave, either what the path held before or the complete new text.
\<close>

lemma atomic_write_states_final_path:
  assumes "s \<in> set (atomic_write_states p data fs)"
  shows "map_of s p = map_of fs p \<or> map_of s p = Some data"
proof -
  have ne: "with_tmp_suffix p \<noteq> p"
    by (cases p) (simp add: with_tmp_suffix_def)
  from assms consider "s = fs"
    | k where "s = write_text (with_tmp_suffix p) (take k data) fs"
    | "atomic_write p data fs = Inr s"
    by (auto simp: atomic_write_states_def simp del: upt_Suc split: sum.splits)
  then show ?thesis
  proof cases
    case 1
    then show ?thesis by simp
  next
    case 2
    with ne show ?thesis by (simp add: write_text_def update_conv')
  next
    case 3
    then show ?thesis by (auto simp: atomic_write_eq update_conv')
  qed
qed


section \<open>Properties of the summarizer and of a run\<close>


lemma chunk_items_single:
  assumes "papers \<noteq> []" and "length papers \<le> n"
  shows "chunk_items n papers = [papers]"
proof -
  from assms have n: "n \<noteq> 0" by (cases papers) auto
  have "chunk_items n papers = take n papers # chunk_items n (drop n papers)"
    using assms(1) n by (subst chunk_items.simps) simp
  also have "\<dots> = papers # chunk_items n []" using assms(2) by simp
  also have "chunk_items n [] = []" by (subst chunk_items.simps) simp
  finally show ?thesis .
qed



lemma emits_return: "emits A (io_return x)"
  by (simp add: emits_def io_return_def)

lemma emits_lift: "emits A (io_lift r)"
  by (simp add: emits_def io_lift_def)

lemma emits_read: "emits A (io_read f)"
  by (simp add: emits_def io_read_def)

lemma emits_save: "ev \<in> A \<Longrightarrow> emits A (io_save ev f)"
  by (auto simp: emits_def io_save_def split: sum.splits)

lemma emits_call: "ev \<in> A \<Longrightarrow> emits A (io_call ev r)"
  by (simp add: emits_def io_call_def)

lemma emits_bind:
  assumes "emits A m" and "\<And>x. emits A (f x)"
  shows "emits A (io_bind m f)"
  unfolding emits_def
proof
  fix w
  from assms(1) obtain evs where m: "trace (snd (m w)) = trace w @ evs" "set evs \<subseteq> A"
    unfolding emits_def by blast
  show "\<exists>evs. trace (snd (io_bind m f w)) = trace w @ evs \<and> set evs \<subseteq> A"
  proof (cases "m w")
    case (Pair r w')
    show ?thesis
    proof (cases r)
      case (Inl e)
      with Pair m show ?thesis by (auto simp: io_bind_def)
    next
      case (Inr x)
      from assms(2) [of x] obtain evs' where
        f: "trace (snd (f x w')) = trace w' @ evs'" "set evs' \<subseteq> A"
        unfolding emits_def by blast
      with Pair Inr m have "trace (snd (io_bind m f w)) = trace w @ (evs @ evs')"
        by (simp add: io_bind_def)
      moreover from m f have "set (evs @ evs') \<subseteq> A" by simp
      ultimately show ?thesis by blast
    qed
  qed
qed

lemma emits_stepD:
  assumes "emits A m" and "m w = (r, w')"
  shows "\<exists>evs. trace w' = trace w @ evs \<and> set evs \<subseteq> A"
  using assms unfolding emits_def by (metis snd_conv)

lemma emits_run_events:
  assumes "emits A m"
  shows "trace (snd (m w)) = trace w @ run_events m w \<and> set (run_events m w) \<subseteq> A"
  using assms unfolding emits_def run_events_def by (metis append_eq_conv_conj)

lemma emits_summarize_chunk:
  assumes "ChunkModelCalled idx \<in> A"
    and "\<And>f t. on_response = Some f \<Longrightarrow> emits A (f idx t)"
  shows "emits A (summarize_chunk L E on_response idx chunk)"
  unfolding summarize_chunk_def
  by (intro emits_bind emits_call emits_lift assms(1))
     (cases on_response; simp add: emits_return assms(2))

lemma emits_stream_chunks:
  assumes "\<And>i. ChunkModelCalled i \<in> A"
    and "\<And>f i t. on_response = Some f \<Longrightarrow> emits A (f i t)"
  shows "emits A (stream_chunks L E existing on_response idx chunks outputs)"
proof (induction chunks arbitrary: idx outputs)
  case Nil
  then show ?case by (simp add: emits_def)
next
  case (Cons chunk chunks)
  show ?case
  proof (cases "map_of existing idx")
    case (Some cached)
    with Cons [of "idx + 1" "outputs @ [(idx, cached)]"] show ?thesis
      by (simp add: emits_def)
  next
    case None
    have "stream_chunks L E existing on_response idx (chunk # chunks) outputs
          = io_bind (summarize_chunk L E on_response idx chunk)
              (\<lambda>payload. stream_chunks L E existing on_response (idx + 1) chunks
                            (outputs @ [(idx, payload)]))"
      using None by (rule_tac ext) (simp add: io_bind_def split: prod.splits sum.splits)
    moreover have "emits A (io_bind (summarize_chunk L E on_response idx chunk)
              (\<lambda>payload. stream_chunks L E existing on_response (idx + 1) chunks
                            (outputs @ [(idx, payload)])))"
      by (intro emits_bind emits_summarize_chunk assms Cons) 
    ultimately show ?thesis by simp
  qed
qed

lemma emits_save_new_chunks:
  assumes "\<And>i. SavedSummaryChunk i \<in> A"
  shows "emits A (save_new_chunks L d existing pairs summaries)"
proof (induction pairs arbitrary: summaries)
  case Nil
  then show ?case by (simp add: emits_def)
next
  case (Cons pr pairs)
  obtain idx summ where pr: "pr = (idx, summ)" by (cases pr)
  show ?case
  proof (cases "map_of existing idx = None")
    case False
    then obtain y where "map_of existing idx = Some y" by auto
    with Cons [of "summaries @ [summ]"] pr show ?thesis by (simp add: emits_def)
  next
    case True
    have "save_new_chunks L d existing (pr # pairs) summaries
          = io_bind (io_save (SavedSummaryChunk idx)
                       (save_summary_chunk L \<lparr>chunk_date = d, chunk_index = idx, content = summ\<rparr>))
              (\<lambda>_. save_new_chunks L d existing pairs (summaries @ [summ]))"
      using True pr by (rule_tac ext) (simp add: io_bind_def split: prod.splits sum.splits)
    moreover have "emits A (io_bind (io_save (SavedSummaryChunk idx)
                       (save_summary_chunk L \<lparr>chunk_date = d, chunk_index = idx, content = summ\<rparr>))
              (\<lambda>_. save_new_chunks L d existing pairs (summaries @ [summ])))"
      by (intro emits_bind emits_save assms Cons)
    ultimately show ?thesis by simp
  qed
qed

lemma emits_summarize_papers_stream:
  assumes "\<And>i. ChunkModelCalled i \<in> A"
    and "\<And>f i t. on_response = Some f \<Longrightarrow> emits A (f i t)"
  shows "emits A (summarize_papers_stream L E papers n existing on_response)"
  unfolding summarize_papers_stream_def
  by (auto intro: emits_return emits_lift emits_stream_chunks assms)

lemma emits_summarize_overall:
  assumes "OverallModelCalled \<in> A"
    and "\<And>f t. on_response = Some f \<Longrightarrow> emits A (f t)"
  shows "emits A (summarize_overall L E summaries on_response)"
proof (cases "summaries = []")
  case True
  then show ?thesis by (simp add: summarize_overall_def emits_return)
next
  case False
  have "emits A (case on_response of None \<Rightarrow> io_return () | Some f \<Rightarrow> f t)" for t
    by (cases on_response) (simp_all add: emits_return assms(2))
  with False show ?thesis
    unfolding summarize_overall_def
    by (simp add: emits_bind emits_call emits_lift assms(1))
qed

lemma emits_chunk_stage:
  assumes "\<And>i. ChunkModelCalled i \<in> A" and "\<And>i. SavedResponseChunk i \<in> A"
    and "\<And>i. SavedSummaryChunk i \<in> A"
  shows "emits A (chunk_stage L E cfg d existing new_papers)"
  unfolding chunk_stage_def
  by (auto intro!: emits_return emits_lift emits_bind emits_summarize_papers_stream
      emits_save_new_chunks emits_save assms)

lemma emits_finish_run:
  assumes "OverallModelCalled \<in> A" and "SavedOverallResponse \<in> A"
    and "SavedOverallSummary \<in> A" and "EmailSent \<in> A"
  shows "emits A (finish_run L E cfg d papers summaries)"
  unfolding finish_run_def
  by (auto intro!: emits_return emits_read emits_bind emits_summarize_overall
      emits_save emits_call assms)

lemma no_summary_no_chunks:
  "\<not> has_summary_for_date fs d \<Longrightarrow> load_summary_chunks L fs d = Inr []"
  unfolding load_summary_chunks_def
  by (rule load_chunk_files_skip) (simp add: has_summary_for_date_def list_ex_iff)

lemma expected_chunks_pos: "papers \<noteq> [] \<Longrightarrow> 0 < expected_chunks papers"
  by (cases papers) (simp_all add: expected_chunks_def)

lemma select_new_papers_reused:
  assumes "stored \<noteq> []" and "load_summary_chunks L fs d = Inr existing"
  shows "select_new_papers stored (has_summary_for_date fs d) existing stored seen
         = (if length existing < expected_chunks stored then stored
            else filter (\<lambda>p. paper_id p \<notin> seen) stored)"
proof (cases "has_summary_for_date fs d")
  case True
  with assms(1) show ?thesis by (simp add: select_new_papers_def)
next
  case False
  with assms(2) have "existing = []" by (simp add: no_summary_no_chunks)
  with assms(1) False expected_chunks_pos [OF assms(1)] show ?thesis
    by (simp add: select_new_papers_def)
qed

lemma select_new_papers_fetched:
  "select_new_papers [] hs existing papers seen = filter (\<lambda>p. paper_id p \<notin> seen) papers"
  by (simp add: select_new_papers_def)

lemma save_state_eq: "save_state L st fs = Inr (files_after_state L st fs)"
  by (simp add: save_state_def atomic_write_eq files_after_state_def)

lemma save_raw_papers_eq: "save_raw_papers L d papers fs = Inr (files_after_raw L d papers fs)"
  by (simp add: save_raw_papers_def atomic_write_eq files_after_raw_def Let_def)

lemma chunks_after_state:
  "load_summary_chunks L (files_after_state L st fs) d = load_summary_chunks L fs d"
  by (rule load_summary_chunks_other_write [where p = state_path and data = "json_dumps_indent L (state_to_json st)"])
     (simp_all add: state_path_def with_tmp_suffix_def startswith_def atomic_write_eq files_after_state_def)

lemma chunks_after_raw:
  "load_summary_chunks L (files_after_raw L d' papers fs) d = load_summary_chunks L fs d"
  by (rule load_summary_chunks_other_write [where p = "raw_papers_path d'"
        and data = "join_lines (map (\<lambda>p. json_dumps L (to_dict p)) papers) @ (if papers \<noteq> [] then [CHR 0x0A] else [])"])
     (simp_all add: raw_papers_path_def with_tmp_suffix_def startswith_def atomic_write_eq files_after_raw_def)

lemma delta_stage_reused:
  assumes st: "load_state L (files w) = Inr st"
    and seen: "build_seen_set (current_date E) st (retention_days cfg) = Inr seen"
    and stored: "load_papers_from_storage L (files w) d = Inr stored"
    and ne: "stored \<noteq> []"
    and ex: "load_summary_chunks L (files w) d = Inr existing"
    and new: "new = (if length existing < expected_chunks stored then stored
                     else filter (\<lambda>p. paper_id p \<notin> seen) stored)"
  shows "delta_stage L E cfg d w
         = (Inr (stored, existing, new),
            \<lparr>files = files_after_state L (state_after E st d new) (files w),
             trace = trace w @ [SavedState]\<rparr>)"
proof -
  have sel: "select_new_papers stored (has_summary_for_date (files w) d) existing stored seen = new"
    unfolding new by (rule select_new_papers_reused [OF ne ex])
  have upd: "update_state_with_papers (current_utc E) st d new = Inr (state_after E st d new)"
    by (simp add: update_state_with_papers_eq state_after_def)
  show ?thesis
    unfolding delta_stage_def snapshot_stage_def
    using ne
    by (simp add: io_bind_def io_read_def io_lift_def io_return_def io_save_def
        st seen stored ex sel upd save_state_eq Let_def)
qed

lemma delta_stage_fetched:
  assumes st: "load_state L (files w) = Inr st"
    and seen: "build_seen_set (current_date E) st (retention_days cfg) = Inr seen"
    and stored: "load_papers_from_storage L (files w) d = Inr []"
    and fetch: "fetch_papers E (categories cfg) d = Inr papers"
    and ex: "load_summary_chunks L (files w) d = Inr existing"
    and new: "new = filter (\<lambda>p. paper_id p \<notin> seen) papers"
  shows "delta_stage L E cfg d w
         = (Inr (papers, existing, new),
            \<lparr>files = files_after_state L (state_after E st d new) (files_after_raw L d papers (files w)),
             trace = trace w @ [Fetched, SavedRawPapers, SavedState]\<rparr>)"
proof -
  have upd: "update_state_with_papers (current_utc E) st d new = Inr (state_after E st d new)"
    by (simp add: update_state_with_papers_eq state_after_def)
  have ex': "load_summary_chunks L (files_after_raw L d papers (files w)) d = Inr existing"
    by (simp add: chunks_after_raw ex)
  show ?thesis
    unfolding delta_stage_def snapshot_stage_def
    by (simp add: io_bind_def io_read_def io_lift_def io_return_def io_save_def io_call_def
        st seen stored fetch ex' select_new_papers_fetched new [symmetric] upd save_state_eq
        save_raw_papers_eq Let_def)
qed

lemma lookup_chunks_keys:
  assumes "set ks \<subseteq> fst ` set ex"
  shows "\<exists>s. lookup_chunks ex ks = Inr s \<and> map Some s = map (map_of ex) ks"
  using assms
proof (induction ks)
  case Nil
  then show ?case by simp
next
  case (Cons k ks)
  then obtain s where s: "lookup_chunks ex ks = Inr s" "map Some s = map (map_of ex) ks"
    by auto
  from Cons.prems have "k \<in> fst ` set ex" by simp
  then obtain c where c: "map_of ex k = Some c"
    by (metis map_of_eq_None_iff not_Some_eq)
  with s show ?case by simp
qed

lemma chunk_stage_nothing_new:
  "\<exists>s. lookup_chunks existing (sort (map fst existing)) = Inr s
       \<and> map Some s = map (map_of existing) (sort (map fst existing))
       \<and> chunk_stage L E cfg d existing [] w
           = (Inr (if existing = [] then NothingNew else ChunkSummaries s), w)"
proof -
  have "set (sort (map fst existing)) \<subseteq> fst ` set existing" by simp
  from lookup_chunks_keys [OF this] obtain s where
    s: "lookup_chunks existing (sort (map fst existing)) = Inr s"
       "map Some s = map (map_of existing) (sort (map fst existing))"
    by blast
  then have "chunk_stage L E cfg d existing [] w
           = (Inr (if existing = [] then NothingNew else ChunkSummaries s), w)"
    by (simp add: chunk_stage_def io_return_def io_bind_def io_lift_def)
  with s show ?thesis by blast
qed

lemma chunk_items_45:
  assumes "length papers = 45"
  shows "chunk_items 20 papers = [take 20 papers, take 20 (drop 20 papers), drop 40 papers]"
proof -
  from assms have ne: "papers \<noteq> []" "drop 20 papers \<noteq> []" "drop 40 papers \<noteq> []" by auto
  have a: "chunk_items 20 papers = take 20 papers # chunk_items 20 (drop 20 papers)"
    using ne(1) by (subst chunk_items.simps) simp
  have b: "chunk_items 20 (drop 20 papers)
           = take 20 (drop 20 papers) # chunk_items 20 (drop 40 papers)"
    using ne(2) by (subst chunk_items.simps) simp
  have c: "chunk_items 20 (drop 40 papers) = [drop 40 papers]"
    using ne(3) assms by (intro chunk_items_single) simp_all
  from a b c show ?thesis by simp
qed

lemma save_response_chunk_eq:
  "save_response_chunk L d idx t fs = Inr (files_after_response L d idx t fs)"
  by (simp add: save_response_chunk_def atomic_write_eq files_after_response_def)

lemma save_summary_chunk_eq:
  "save_summary_chunk L \<lparr>chunk_date = d, chunk_index = idx, content = c\<rparr> fs
   = Inr (files_after_chunk L d idx c fs)"
  by (simp add: save_summary_chunk_def atomic_write_eq files_after_chunk_def)

lemma summarize_chunk_saving_response:
  assumes "chunk_model E idx chunk = Inr t"
  shows "summarize_chunk L E
           (Some (\<lambda>i payload. io_save (SavedResponseChunk i) (save_response_chunk L d i payload)))
           idx chunk w
         = (parse_model_output L t,
            \<lparr>files = files_after_response L d idx t (files w),
             trace = trace w @ [ChunkModelCalled idx, SavedResponseChunk idx]\<rparr>)"
  using assms
  by (simp add: summarize_chunk_def io_bind_def io_call_def io_save_def io_lift_def
      save_response_chunk_eq)

lemma chunk_stage_resume_third:
  assumes len: "length papers = 45"
    and c1: "map_of existing 1 = Some c1" and c2: "map_of existing 2 = Some c2"
    and c3: "map_of existing 3 = None"
    and key: "configured (openai_api_key cfg)"
    and answer: "chunk_model E 3 (drop 40 papers) = Inr t"
    and parsed: "parse_model_output L t = Inr p3"
  shows "chunk_stage L E cfg d existing papers w
         = (Inr (ChunkSummaries [c1, c2, p3]),
            \<lparr>files = files_after_chunk L d 3 p3 (files_after_response L d 3 t (files w)),
             trace = trace w @ [ChunkModelCalled 3, SavedResponseChunk 3, SavedSummaryChunk 3]\<rparr>)"
proof -
  let ?cb = "Some (\<lambda>i payload. io_save (SavedResponseChunk i) (save_response_chunk L d i payload))"
  let ?w1 = "\<lparr>files = files_after_response L d 3 t (files w),
              trace = trace w @ [ChunkModelCalled 3, SavedResponseChunk 3]\<rparr>"
  from len have ne: "papers \<noteq> []" by auto
  have stream: "summarize_papers_stream L E papers 20 existing ?cb w
                = (Inr [(1, c1), (2, c2), (3, p3)], ?w1)"
    using ne c1 c2 c3
    by (simp add: summarize_papers_stream_def chunk_items_45 [OF len]
        summarize_chunk_saving_response [OF answer] parsed)
  have save: "save_new_chunks L d existing [(1, c1), (2, c2), (3, p3)] [] ?w1
              = (Inr [c1, c2, p3],
                 \<lparr>files = files_after_chunk L d 3 p3 (files_after_response L d 3 t (files w)),
                  trace = trace w @ [ChunkModelCalled 3, SavedResponseChunk 3, SavedSummaryChunk 3]\<rparr>)"
    using c1 c2 c3 by (simp add: io_save_def save_summary_chunk_eq)
  show ?thesis
    using ne key stream save
    by (simp add: chunk_stage_def io_bind_def io_return_def)
qed

text \<open>
  Claim C10: take a day whose summaries directory holds no chunk file yet, and chunk
  summaries with distinct positive indices whose payloads the JSON library reads back
  as it wrote them. Saving them one after the other succeeds, and loading the day's
  chunks then returns a dict that maps exactly the saved indices to the saved contents.
  On any file system, saving the day's overall summary leaves the loaded chunks as
  they were (neither \<open>summary_overall.json\<close> nor its temporary file matches the
  chunk prefix), and a stored payload whose \<open>chunk_index\<close> is missing or not
  positive is ignored: the loader returns what it returns without that file.
\<close>

theorem save_load_summary_chunks:
  assumes "\<not> has_summary_for_date fs d"
    and "distinct (map fst cs)" and "\<forall>ic \<in> set cs. 0 < fst ic"
    and "\<forall>ic \<in> set cs. json_loads L (snd (chunk_file L d ic))
           = Some (chunk_payload \<lparr>chunk_date = d, chunk_index = fst ic, content = snd ic\<rparr>)"
  shows "\<exists>fs' m. save_summary_chunks L d cs fs = Inr fs'
           \<and> load_summary_chunks L fs' d = Inr m \<and> map_of m = map_of cs
           \<and> (\<forall>g summ. \<exists>g'. save_overall_summary L d summ g = Inr g'
                  \<and> load_summary_chunks L g' d = load_summary_chunks L g d)
           \<and> (\<forall>g p text kvs.
                  map_of g p = Some text \<and> json_loads L text = Some (JObj kvs)
                  \<and> (map_of kvs ''chunk_index'' = None
                       \<or> (\<exists>n. map_of kvs ''chunk_index'' = Some (JInt n) \<and> n \<le> 0))
                  \<longrightarrow> load_summary_chunks L (AList.delete p g) d = load_summary_chunks L g d)"
proof -
  let ?fs' = "fs @ map (chunk_file L d) cs"
  have "save_summary_chunks L d cs fs = Inr ?fs'"
    and "load_summary_chunks L ?fs' d = Inr cs"
    using load_summary_chunks_saved [OF assms] by blast+
  moreover have "\<exists>g'. save_overall_summary L d summ g = Inr g'
                  \<and> load_summary_chunks L g' d = load_summary_chunks L g d" for g summ
    by (rule save_overall_summary_keeps_chunks)
  moreover have "load_summary_chunks L (AList.delete p g) d = load_summary_chunks L g d"
    if "map_of g p = Some body \<and> json_loads L body = Some (JObj kvs)
        \<and> (map_of kvs ''chunk_index'' = None
             \<or> (\<exists>n. map_of kvs ''chunk_index'' = Some (JInt n) \<and> n \<le> 0))" for g p body kvs
    using that load_summary_chunks_ignores [of g p body L kvs d] by blast
  ultimately show ?thesis by blast
qed

lemma isoformat_example: "isoformat 738890 = ''2024-01-05''"
  by code_simp

lemma example_chunk_files:
  "chunk_file example_lib 738890 (1, JObj [(''summary'', JStr ''first'')])
     = (([''2024-01-05'', ''summaries''], ''summary_part01.json''), example_chunk_text 1 ''first'')"
  "chunk_file example_lib 738890 (2, JObj [(''summary'', JStr ''second'')])
     = (([''2024-01-05'', ''summaries''], ''summary_part02.json''), example_chunk_text 2 ''second'')"
  by code_simp+


theorem save_load_summary_chunks_witness:
  "\<not> has_summary_for_date [] 738890 \<and> distinct (map fst example_chunks)
   \<and> (\<exists>fs' m. save_summary_chunks example_lib 738890 example_chunks [] = Inr fs'
         \<and> load_summary_chunks example_lib fs' 738890 = Inr m
         \<and> map_of m = map_of example_chunks)
   \<and> map_of stray_chunk_fs stray_chunk_path = Some (example_chunk_text 0 ''stray'')
   \<and> load_summary_chunks example_lib (AList.delete stray_chunk_path stray_chunk_fs) 738890
       = load_summary_chunks example_lib stray_chunk_fs 738890"
proof -
  have h1: "\<not> has_summary_for_date [] 738890" by code_simp
  have h2: "distinct (map fst example_chunks)" by code_simp
  have h3: "\<forall>ic \<in> set example_chunks. 0 < fst ic" by code_simp
  have h4: "\<forall>ic \<in> set example_chunks.
      json_loads example_lib (snd (chunk_file example_lib 738890 ic))
        = Some (chunk_payload \<lparr>chunk_date = 738890, chunk_index = fst ic, content = snd ic\<rparr>)"
    by code_simp
  have s1: "map_of stray_chunk_fs stray_chunk_path = Some (example_chunk_text 0 ''stray'')"
    by (simp add: stray_chunk_fs_def)
  have s2: "json_loads example_lib (example_chunk_text 0 ''stray'')
      = Some (JObj [(''date'', JStr ''2024-01-05''), (''chunk_index'', JInt 0),
                    (''content'', JObj [(''summary'', JStr ''stray'')])])"
    by code_simp
  have s3: "\<exists>n. map_of [(''date'', JStr ''2024-01-05''), (''chunk_index'', JInt 0),
                    (''content'', JObj [(''summary'', JStr ''stray'')])] ''chunk_index''
             = Some (JInt n) \<and> n \<le> 0"
    by simp
  from save_load_summary_chunks [OF h1 h2 h3 h4] h1 h2 s1 s2 s3
  show ?thesis by blast
qed

text \<open>
  Claim C8 does not hold for chunk summaries. Their reader, \<open>load_summary_chunks\<close>, does
  not open a final path: it lists the summaries directory and parses every file whose
  name starts with \<open>summary_part\<close>, and the temporary file of \<open>_atomic_write\<close>,
  \<open>summary_part01.json.tmp\<close>, is such a file. When the write of chunk 1 is interrupted
  ten characters into the temporary file, the directory that loaded as the empty dict
  before the write makes the loader raise \<open>JSONDecodeError\<close> on the truncated text
  (and \<open>has_summary_for_date\<close> reports a summary).
\<close>

theorem interrupted_chunk_write_breaks_loader:
  "interrupted_chunk_fs
     \<in> set (atomic_write_states (fst (chunk_file example_lib 738890 (1, JObj [(''summary'', JStr ''first'')])))
              (snd (chunk_file example_lib 738890 (1, JObj [(''summary'', JStr ''first'')]))) [])
   \<and> load_summary_chunks example_lib [] 738890 = Inr []
   \<and> load_summary_chunks example_lib interrupted_chunk_fs 738890 = Inl JSONDecodeError
   \<and> has_summary_for_date interrupted_chunk_fs 738890"
  by code_simp



end
